theory Spec2Isabelle
  imports Complex_Main "HOL-Library.AList" "HOL-Library.Multiset" "HOL-Library.Char_ord"
    "HOL-Library.List_Lexorder" "HOL-Library.Product_Lexorder"
begin

section \<open>Data model of \<open>scheduler.ts\<close>\<close>

text \<open>
  The interfaces \<open>Game\<close>, \<open>Round\<close>, \<open>SideBet\<close> and \<open>TeamStats\<close> become records.
  A TypeScript \<open>number\<close> that holds a score or an amount is an \<open>int\<close>; identifiers and
  round numbers, which the generators count up from 1, are \<open>nat\<close>. An optional field
  (\<open>team1Score?: number\<close>) is an \<open>option\<close>, \<open>undefined\<close> being \<open>None\<close>. The field \<open>id\<close> is
  written \<open>ident\<close> (the name \<open>id\<close> is HOL's identity function); the fields of \<open>SideBet\<close>
  and \<open>TeamStats\<close> whose names repeat those of \<open>Game\<close> or of the per-player statistics
  carry the prefix \<open>bet_\<close> or \<open>team_\<close>.
\<close>

type_synonym player = string

type_synonym pair = "player \<times> player"

record Game =
  ident :: nat
  team1 :: pair
  team2 :: pair
  team1Score :: "int option"
  team2Score :: "int option"

record Round =
  roundNumber :: nat
  games :: "Game list"

datatype side = Side1 | Side2

record SideBet =
  bet_id :: nat
  bet_team1 :: pair
  bet_team2 :: pair
  amount :: int
  winner :: "side option"

record PlayerStats =
  totalPoints :: int
  pointsLost :: int
  gamesPlayed :: int
  wins :: int
  losses :: int
  gameScores :: "int list"

record TeamStats =
  teamName :: string
  team_players :: pair
  team_wins :: int
  team_losses :: int
  pointsScored :: int
  pointsConceded :: int
  pointDifferential :: int
  team_pointsLost :: int
  team_gameScores :: "int list"

text \<open>
  Exceptions are values: the generators throw \<open>new Error(message)\<close>, and a method call on
  \<open>undefined\<close> throws a \<open>TypeError\<close>.
\<close>

datatype error = Error string | TypeError

text \<open>
  A \<open>Map\<close>, and the own properties of an object used as a dictionary
  (\<open>{ [player: string]: ... }\<close>), are association lists in insertion order with one entry
  per key: \<open>AList.update\<close> overwrites in place or appends a new key at the end,
  \<open>AList.map_entry\<close> mutates the value stored under a key.
\<close>

type_synonym 'v dict = "(string \<times> 'v) list"

text \<open>
  A property read \<open>obj[name]\<close> on a plain object \<open>{}\<close> that has no own property \<open>name\<close>
  finds the property of \<open>Object.prototype\<close> of that name, if there is one: a function, or
  for \<open>__proto__\<close> the prototype object itself, all of them truthy. \<open>inheritedNames\<close> are
  the property names of \<open>Object.prototype\<close>, those of the language standard and of its
  annex for browsers, which Node implements too.
\<close>

definition inheritedNames :: "string list" where
  "inheritedNames =
    [''constructor'', ''__defineGetter__'', ''__defineSetter__'', ''hasOwnProperty'',
     ''__lookupGetter__'', ''__lookupSetter__'', ''isPrototypeOf'', ''propertyIsEnumerable'',
     ''toString'', ''valueOf'', ''__proto__'', ''toLocaleString'']"

definition inherited :: "string \<Rightarrow> bool" where
  "inherited name = (name \<in> set inheritedNames)"

text \<open>
  \<open>xs.forEach(f)\<close> for a callback that may throw: the state is threaded through the calls
  and the first exception ends the loop.
\<close>

fun forEach :: "('a \<Rightarrow> 's \<Rightarrow> error + 's) \<Rightarrow> 'a list \<Rightarrow> 's \<Rightarrow> error + 's" where
  "forEach f [] s = Inr s"
| "forEach f (x # xs) s = (case f x s of Inl e \<Rightarrow> Inl e | Inr s' \<Rightarrow> forEach f xs s')"

section \<open>The shuffle\<close>

text \<open>
  \<open>Math.random()\<close> is an ambient source: \<open>rand k\<close> is the value of its \<open>k\<close>-th call, a
  number in \<open>[0, 1)\<close>. \<open>shuffle_loop\<close> is the loop \<open>for (i = length - 1; i > 0; i--)\<close> with
  \<open>j = Math.floor(Math.random() * (i + 1))\<close> and the swap of positions \<open>i\<close> and \<open>j\<close>.
\<close>

fun shuffle_loop :: "(nat \<Rightarrow> real) \<Rightarrow> nat \<Rightarrow> nat \<Rightarrow> 'a list \<Rightarrow> 'a list" where
  "shuffle_loop rand k 0 shuffled = shuffled"
| "shuffle_loop rand k (Suc i') shuffled =
     (let i = Suc i';
          j = nat \<lfloor>rand k * real (i + 1)\<rfloor>
      in shuffle_loop rand (k + 1) i' (shuffled[i := shuffled ! j, j := shuffled ! i]))"

definition shuffleArray :: "(nat \<Rightarrow> real) \<Rightarrow> 'a list \<Rightarrow> 'a list" where
  "shuffleArray rand array = shuffle_loop rand 0 (length array - 1) array"

section \<open>The 8-player generator\<close>

definition schedule :: "nat list list list" where
  "schedule =
    [[[0, 1, 2, 3], [4, 5, 6, 7]],
     [[0, 2, 4, 6], [1, 3, 5, 7]],
     [[0, 3, 5, 6], [1, 2, 4, 7]],
     [[0, 4, 3, 7], [1, 5, 2, 6]],
     [[0, 5, 1, 4], [2, 7, 3, 6]],
     [[0, 6, 1, 7], [2, 4, 3, 5]],
     [[0, 7, 1, 6], [2, 5, 3, 4]]]"

text \<open>
  \<open>roundGames.map\<close> with the counter \<open>gameId++\<close>: the games of one round and the counter
  after them.
\<close>

fun mapGames :: "player list \<Rightarrow> nat \<Rightarrow> nat list list \<Rightarrow> Game list \<times> nat" where
  "mapGames shuffledPlayers gameId [] = ([], gameId)"
| "mapGames shuffledPlayers gameId (gameIndices # rest) =
     (let game = \<lparr>ident = gameId,
                   team1 = (shuffledPlayers ! (gameIndices ! 0), shuffledPlayers ! (gameIndices ! 1)),
                   team2 = (shuffledPlayers ! (gameIndices ! 2), shuffledPlayers ! (gameIndices ! 3)),
                   team1Score = None, team2Score = None\<rparr>;
          (gs, gameId') = mapGames shuffledPlayers (gameId + 1) rest
      in (game # gs, gameId'))"

text \<open>\<open>schedule.forEach((roundGames, roundIndex) => ...)\<close>, pushing one round per entry.\<close>

fun forEachRound :: "player list \<Rightarrow> nat \<Rightarrow> nat \<Rightarrow> nat list list list \<Rightarrow> Round list" where
  "forEachRound shuffledPlayers gameId roundIndex [] = []"
| "forEachRound shuffledPlayers gameId roundIndex (roundGames # rest) =
     (let (gs, gameId') = mapGames shuffledPlayers gameId roundGames
      in \<lparr>roundNumber = roundIndex + 1, games = gs\<rparr>
           # forEachRound shuffledPlayers gameId' (roundIndex + 1) rest)"

definition generateRoundRobinSchedule :: "(nat \<Rightarrow> real) \<Rightarrow> player list \<Rightarrow> error + Round list" where
  "generateRoundRobinSchedule rand players =
     (if length players \<noteq> 8 then Inl (Error ''Exactly 8 players are required'')
      else Inr (forEachRound (shuffleArray rand players) 1 0 schedule))"

section \<open>The 12-player generator\<close>

text \<open>\<open>for (let i = 0; i < 12; i += 2) teams.push([shuffledPlayers[i], shuffledPlayers[i + 1]])\<close>\<close>

function pairLoop :: "player list \<Rightarrow> nat \<Rightarrow> pair list \<Rightarrow> pair list" where
  "pairLoop shuffledPlayers i teams =
     (if i < 12
      then pairLoop shuffledPlayers (i + 2) (teams @ [(shuffledPlayers ! i, shuffledPlayers ! (i + 1))])
      else teams)"
  by pat_completeness auto
termination
  by (relation "measure (\<lambda>(shuffledPlayers, i, teams). 12 - i)") auto

declare pairLoop.simps [simp del]

text \<open>
  The inner loop \<open>for (let i = 1; i < 3; i++)\<close> pairs \<open>rotatingTeams[i]\<close> with
  \<open>rotatingTeams[5 - i]\<close>; it returns the games of the round and the counter.
\<close>

function pairRemaining :: "pair list \<Rightarrow> nat list \<Rightarrow> nat \<Rightarrow> nat \<Rightarrow> Game list \<Rightarrow> Game list \<times> nat" where
  "pairRemaining teams rotatingTeams i gameId gs =
     (if i < 3
      then (let team1Idx = rotatingTeams ! i;
                team2Idx = rotatingTeams ! (5 - i)
            in pairRemaining teams rotatingTeams (i + 1) (gameId + 1)
                 (gs @ [\<lparr>ident = gameId, team1 = teams ! team1Idx, team2 = teams ! team2Idx,
                         team1Score = None, team2Score = None\<rparr>]))
      else (gs, gameId))"
  by pat_completeness auto
termination
  by (relation "measure (\<lambda>(teams, rotatingTeams, i, gameId, gs). 3 - i)") auto

declare pairRemaining.simps [simp del]

text \<open>
  The outer loop \<open>for (let round = 0; round < 5; round++)\<close> (\<open>roundNo\<close> is its counter): team 0 meets
  \<open>rotatingTeams[0]\<close>, the others are paired, and \<open>rotatingTeams.unshift(rotatingTeams.pop())\<close>
  moves the last index to the front.
\<close>

function roundLoop :: "pair list \<Rightarrow> nat \<Rightarrow> nat list \<Rightarrow> nat \<Rightarrow> Round list \<Rightarrow> Round list" where
  "roundLoop teams roundNo rotatingTeams gameId rounds =
     (if roundNo < 5
      then (let first = \<lparr>ident = gameId, team1 = teams ! 0, team2 = teams ! (rotatingTeams ! 0),
                         team1Score = None, team2Score = None\<rparr>;
                (gs, gameId') = pairRemaining teams rotatingTeams 1 (gameId + 1) [first]
            in roundLoop teams (roundNo + 1) (last rotatingTeams # butlast rotatingTeams) gameId'
                 (rounds @ [\<lparr>roundNumber = roundNo + 1, games = gs\<rparr>]))
      else rounds)"
  by pat_completeness auto
termination
  by (relation "measure (\<lambda>(teams, roundNo, rotatingTeams, gameId, rounds). 5 - roundNo)") auto

declare roundLoop.simps [simp del]

text \<open>
  \<open>customTeams\<close> is an optional argument; \<open>customTeams && customTeams.length === 6\<close> holds
  for an array of length 6 only.
\<close>

definition chooseTeams :: "(nat \<Rightarrow> real) \<Rightarrow> player list \<Rightarrow> pair list option \<Rightarrow> pair list" where
  "chooseTeams rand players customTeams =
     (case customTeams of
        Some ts \<Rightarrow> if length ts = 6 then ts else pairLoop (shuffleArray rand players) 0 []
      | None \<Rightarrow> pairLoop (shuffleArray rand players) 0 [])"

definition generate12PlayerSchedule ::
  "(nat \<Rightarrow> real) \<Rightarrow> player list \<Rightarrow> pair list option \<Rightarrow> error + Round list" where
  "generate12PlayerSchedule rand players customTeams =
     (if length players \<noteq> 12 then Inl (Error ''Exactly 12 players are required'')
      else Inr (roundLoop (chooseTeams rand players customTeams) 0 [1, 2, 3, 4, 5] 1 []))"

section \<open>Player statistics\<close>

definition MAX_POINTS_PER_GAME :: int where
  "MAX_POINTS_PER_GAME = 21"

text \<open>The object literal a player's entry starts from.\<close>

definition newPlayerStats :: PlayerStats where
  "newPlayerStats = \<lparr>totalPoints = 0, pointsLost = 0, gamesPlayed = 0, wins = 0, losses = 0,
     gameScores = []\<rparr>"

text \<open>
  The callback of \<open>game.team1.forEach\<close>. \<open>!stats[player]\<close> holds when \<open>player\<close> is neither an
  own nor an inherited property of \<open>stats\<close>, and then the entry is created. After that
  \<open>stats[player]\<close> is the own entry, which the statements mutate, or else an inherited
  function (or the prototype object): the two \<open>+=\<close> write to that object and not to
  \<open>stats\<close>, its \<open>gameScores\<close> is \<open>undefined\<close>, and \<open>gameScores.push\<close> throws a \<open>TypeError\<close>.
  The win is decided by \<open>if (team1Won)\<close>.
\<close>

definition addTeam1Player :: "int \<Rightarrow> bool \<Rightarrow> player \<Rightarrow> PlayerStats dict \<Rightarrow> error + PlayerStats dict" where
  "addTeam1Player team1Score' team1Won player stats =
     (let stats1 = (if map_of stats player = None \<and> \<not> inherited player
                    then AList.update player newPlayerStats stats
                    else stats)
      in if map_of stats1 player = None then Inl TypeError
         else Inr (AList.map_entry player
           (\<lambda>s. s\<lparr>totalPoints := totalPoints s + team1Score',
                   pointsLost := pointsLost s + (MAX_POINTS_PER_GAME - team1Score'),
                   gameScores := gameScores s @ [team1Score'],
                   gamesPlayed := gamesPlayed s + 1,
                   wins := (if team1Won then wins s + 1 else wins s),
                   losses := (if team1Won then losses s else losses s + 1)\<rparr>)
           stats1))"

text \<open>The callback of \<open>game.team2.forEach\<close>: the same, the win decided by \<open>if (!team1Won)\<close>.\<close>

definition addTeam2Player :: "int \<Rightarrow> bool \<Rightarrow> player \<Rightarrow> PlayerStats dict \<Rightarrow> error + PlayerStats dict" where
  "addTeam2Player team2Score' team1Won player stats =
     (let stats1 = (if map_of stats player = None \<and> \<not> inherited player
                    then AList.update player newPlayerStats stats
                    else stats)
      in if map_of stats1 player = None then Inl TypeError
         else Inr (AList.map_entry player
           (\<lambda>s. s\<lparr>totalPoints := totalPoints s + team2Score',
                   pointsLost := pointsLost s + (MAX_POINTS_PER_GAME - team2Score'),
                   gameScores := gameScores s @ [team2Score'],
                   gamesPlayed := gamesPlayed s + 1,
                   wins := (if \<not> team1Won then wins s + 1 else wins s),
                   losses := (if \<not> team1Won then losses s else losses s + 1)\<rparr>)
           stats1))"

text \<open>
  The body of \<open>round.games.forEach\<close>: a game counts when both scores are recorded
  (\<open>!== undefined\<close>); \<open>team1Won = team1Score > team2Score\<close>.
\<close>

definition addGame :: "Game \<Rightarrow> PlayerStats dict \<Rightarrow> error + PlayerStats dict" where
  "addGame game stats =
     (case (team1Score game, team2Score game) of
        (Some team1Score', Some team2Score') \<Rightarrow>
          (let team1Won = (team1Score' > team2Score')
           in case forEach (addTeam1Player team1Score' team1Won)
                     [fst (team1 game), snd (team1 game)] stats of
                Inl e \<Rightarrow> Inl e
              | Inr stats1 \<Rightarrow>
                  forEach (addTeam2Player team2Score' team1Won)
                    [fst (team2 game), snd (team2 game)] stats1)
      | _ \<Rightarrow> Inr stats)"

definition calculatePlayerStats :: "Round list \<Rightarrow> error + PlayerStats dict" where
  "calculatePlayerStats rounds = forEach (\<lambda>r stats. forEach addGame (games r) stats) rounds []"

section \<open>Sorting and enumeration built-ins\<close>

text \<open>
  \<open>Array.prototype.sort(compareFn)\<close> is stable, and for a comparator that is a consistent
  order its result is determined: the stable insertion sort below. \<open>compareFn a b \<le> 0\<close>
  keeps \<open>a\<close> before \<open>b\<close>.
\<close>

fun insertSorted :: "('a \<Rightarrow> 'a \<Rightarrow> int) \<Rightarrow> 'a \<Rightarrow> 'a list \<Rightarrow> 'a list" where
  "insertSorted compareFn x [] = [x]"
| "insertSorted compareFn x (y # ys) =
     (if compareFn x y \<le> 0 then x # y # ys else y # insertSorted compareFn x ys)"

definition sortArray :: "('a \<Rightarrow> 'a \<Rightarrow> int) \<Rightarrow> 'a list \<Rightarrow> 'a list" where
  "sortArray compareFn xs = foldr (insertSorted compareFn) xs []"

text \<open>
  \<open>Object.entries\<close> lists the own properties of an object in the order of
  \<open>OrdinaryOwnPropertyKeys\<close>: first the keys that are array indices (the canonical decimal
  numerals of the integers from 0 to \<open>2^32 - 2\<close>) in ascending numeric order, then the
  other strings in the order of their creation.
\<close>

definition isDigit :: "char \<Rightarrow> bool" where
  "isDigit c = (c \<in> set ''0123456789'')"

definition indexValue :: "string \<Rightarrow> int" where
  "indexValue s = foldl (\<lambda>n c. 10 * n + (of_char c - 48)) 0 s"

definition isArrayIndex :: "string \<Rightarrow> bool" where
  "isArrayIndex s = (s \<noteq> [] \<and> list_all isDigit s \<and> (s = ''0'' \<or> hd s \<in> set ''123456789'')
     \<and> indexValue s < 2 ^ 32 - 1)"

definition Object_entries :: "'v dict \<Rightarrow> (string \<times> 'v) list" where
  "Object_entries obj =
     sort_key (\<lambda>e. indexValue (fst e)) (filter (\<lambda>e. isArrayIndex (fst e)) obj)
     @ filter (\<lambda>e. \<not> isArrayIndex (fst e)) obj"

section \<open>Payouts\<close>

definition prizes :: "int list" where
  "prizes = [8, 6, 2]"

definition byPointsLost :: "string \<times> PlayerStats \<Rightarrow> string \<times> PlayerStats \<Rightarrow> int" where
  "byPointsLost a b = pointsLost (snd a) - pointsLost (snd b)"

text \<open>\<open>const sortedPlayers = Object.entries(stats).sort(...)\<close>\<close>

definition sortedPlayers :: "PlayerStats dict \<Rightarrow> (string \<times> PlayerStats) list" where
  "sortedPlayers stats = sortArray byPointsLost (Object_entries stats)"

text \<open>
  The first \<open>forEach\<close>: \<open>payouts[player] = -entryFee\<close>. The assignment creates or overwrites
  the own property, except for \<open>__proto__\<close>, whose setter ignores a number.
\<close>

definition chargeFee :: "int \<Rightarrow> string \<times> PlayerStats \<Rightarrow> int dict \<Rightarrow> int dict" where
  "chargeFee entryFee entry payouts =
     (if fst entry = ''__proto__'' then payouts
      else AList.update (fst entry) (- entryFee) payouts)"

text \<open>
  The second \<open>forEach\<close>, with the index:
  \<open>if (index < prizes.length) payouts[player] += prizes[index]\<close>. It runs over the list of the
  first loop, so every player has an own amount by then, except \<open>__proto__\<close>, for which
  this assignment has no effect either.
\<close>

definition addPrize :: "nat \<times> string \<times> PlayerStats \<Rightarrow> int dict \<Rightarrow> int dict" where
  "addPrize indexed payouts =
     (let index = fst indexed; player = fst (snd indexed)
      in if index < length prizes then AList.map_entry player (\<lambda>v. v + prizes ! index) payouts
         else payouts)"

text \<open>The function body after \<open>const stats = calculatePlayerStats(rounds)\<close>.\<close>

definition distributePrizes :: "PlayerStats dict \<Rightarrow> int \<Rightarrow> int dict" where
  "distributePrizes stats entryFee =
     (let payouts = fold (chargeFee entryFee) (sortedPlayers stats) []
      in fold addPrize (enumerate 0 (sortedPlayers stats)) payouts)"

definition calculatePayouts :: "Round list \<Rightarrow> int \<Rightarrow> error + int dict" where
  "calculatePayouts rounds entryFee =
     (case calculatePlayerStats rounds of
        Inl e \<Rightarrow> Inl e
      | Inr stats \<Rightarrow> Inr (distributePrizes stats entryFee))"

section \<open>Side bets\<close>

text \<open>
  The values that \<open>(totals[player] || 0) + sideBet.amount\<close> and its counterpart with \<open>-\<close>
  read and store: a number; \<open>Text\<close>, a string that is not a numeral (the text of a
  function or of an object followed by digits); \<open>NaN\<close>; \<open>Obj\<close>, an inherited function or
  the prototype object; \<open>Undefined\<close>.
\<close>

datatype val = Num int | Text | NaN | Obj | Undefined

text \<open>\<open>totals[player]\<close>: the own property, else the inherited one, else \<open>undefined\<close>.\<close>

definition getProp :: "val dict \<Rightarrow> string \<Rightarrow> val" where
  "getProp totals player =
     (case map_of totals player of
        Some v \<Rightarrow> v
      | None \<Rightarrow> if inherited player then Obj else Undefined)"

text \<open>\<open>v || 0\<close>: \<open>undefined\<close>, \<open>NaN\<close> and 0 are falsy; a non-empty string and an object are not.\<close>

definition orZero :: "val \<Rightarrow> val" where
  "orZero v = (case v of Undefined \<Rightarrow> Num 0 | NaN \<Rightarrow> Num 0 | Num n \<Rightarrow> Num n | Text \<Rightarrow> Text
     | Obj \<Rightarrow> Obj)"

text \<open>
  \<open>v + n\<close> adds numbers and concatenates when \<open>v\<close> is a string, a function or an object;
  \<open>v - n\<close> converts \<open>v\<close> to a number first, which gives \<open>NaN\<close> for those.
\<close>

definition plus :: "val \<Rightarrow> int \<Rightarrow> val" where
  "plus v n = (case v of Num a \<Rightarrow> Num (a + n) | Text \<Rightarrow> Text | Obj \<Rightarrow> Text | NaN \<Rightarrow> NaN
     | Undefined \<Rightarrow> NaN)"

definition minus :: "val \<Rightarrow> int \<Rightarrow> val" where
  "minus v n = (case v of Num a \<Rightarrow> Num (a - n) | Text \<Rightarrow> NaN | Obj \<Rightarrow> NaN | NaN \<Rightarrow> NaN
     | Undefined \<Rightarrow> NaN)"

text \<open>
  \<open>totals[player] = v\<close> for a primitive \<open>v\<close>: an own property is created or overwritten,
  except that the setter of \<open>__proto__\<close> ignores a primitive.
\<close>

definition setProp :: "string \<Rightarrow> val \<Rightarrow> val dict \<Rightarrow> val dict" where
  "setProp player v totals = (if player = ''__proto__'' then totals else AList.update player v totals)"

definition gain :: "int \<Rightarrow> player \<Rightarrow> val dict \<Rightarrow> val dict" where
  "gain stake player totals = setProp player (plus (orZero (getProp totals player)) stake) totals"

definition lose :: "int \<Rightarrow> player \<Rightarrow> val dict \<Rightarrow> val dict" where
  "lose stake player totals = setProp player (minus (orZero (getProp totals player)) stake) totals"

definition settleBet :: "SideBet \<Rightarrow> val dict \<Rightarrow> val dict" where
  "settleBet sideBet totals =
     (case winner sideBet of
        Some Side1 \<Rightarrow>
          fold (lose (amount sideBet)) [fst (bet_team2 sideBet), snd (bet_team2 sideBet)]
            (fold (gain (amount sideBet)) [fst (bet_team1 sideBet), snd (bet_team1 sideBet)] totals)
      | Some Side2 \<Rightarrow>
          fold (lose (amount sideBet)) [fst (bet_team1 sideBet), snd (bet_team1 sideBet)]
            (fold (gain (amount sideBet)) [fst (bet_team2 sideBet), snd (bet_team2 sideBet)] totals)
      | None \<Rightarrow> totals)"

definition calculateSideBetTotals :: "SideBet list \<Rightarrow> val dict" where
  "calculateSideBetTotals sideBets = fold settleBet sideBets []"

section \<open>Team statistics\<close>

text \<open>
  \<open>[...game.team1].sort().join(' & ')\<close>: the default sort orders the two names as strings.
\<close>

definition teamKey :: "pair \<Rightarrow> string" where
  "teamKey team =
     (if snd team < fst team then snd team @ '' & '' @ fst team
      else fst team @ '' & '' @ snd team)"

definition MAX_POINTS :: int where
  "MAX_POINTS = 21"

definition newTeamStats :: "string \<Rightarrow> pair \<Rightarrow> TeamStats" where
  "newTeamStats key team = \<lparr>teamName = key, team_players = team, team_wins = 0, team_losses = 0,
     pointsScored = 0, pointsConceded = 0, pointDifferential = 0, team_pointsLost = 0,
     team_gameScores = []\<rparr>"

text \<open>\<open>if (!teamMap.has(key)) teamMap.set(key, {...})\<close>\<close>

definition initTeam :: "string \<Rightarrow> pair \<Rightarrow> TeamStats dict \<Rightarrow> TeamStats dict" where
  "initTeam key team teamMap =
     (if map_of teamMap key = None then AList.update key (newTeamStats key team) teamMap
      else teamMap)"

text \<open>
  The statements on \<open>team1Stats\<close> and \<open>team2Stats\<close>, which are the objects stored in the map
  under the two keys (one object when the keys coincide), in the order of the source.
\<close>

definition addScores :: "int \<Rightarrow> int \<Rightarrow> TeamStats \<Rightarrow> TeamStats" where
  "addScores own other t = t\<lparr>pointsScored := pointsScored t + own,
     pointsConceded := pointsConceded t + other,
     team_pointsLost := team_pointsLost t + (MAX_POINTS - own),
     team_gameScores := team_gameScores t @ [own]\<rparr>"

definition addWin :: "TeamStats \<Rightarrow> TeamStats" where
  "addWin t = t\<lparr>team_wins := team_wins t + 1\<rparr>"

definition addLoss :: "TeamStats \<Rightarrow> TeamStats" where
  "addLoss t = t\<lparr>team_losses := team_losses t + 1\<rparr>"

definition setDifferential :: "TeamStats \<Rightarrow> TeamStats" where
  "setDifferential t = t\<lparr>pointDifferential := pointsScored t - pointsConceded t\<rparr>"

definition addTeamGame :: "Game \<Rightarrow> TeamStats dict \<Rightarrow> TeamStats dict" where
  "addTeamGame game teamMap =
     (case (team1Score game, team2Score game) of
        (Some team1Score', Some team2Score') \<Rightarrow>
          (let team1Key = teamKey (team1 game);
               team2Key = teamKey (team2 game);
               m1 = initTeam team1Key (team1 game) teamMap;
               m2 = initTeam team2Key (team2 game) m1;
               m3 = AList.map_entry team1Key (addScores team1Score' team2Score') m2;
               m4 = AList.map_entry team2Key (addScores team2Score' team1Score') m3;
               m5 = (if team1Score' > team2Score'
                     then AList.map_entry team2Key addLoss (AList.map_entry team1Key addWin m4)
                     else if team2Score' > team1Score'
                     then AList.map_entry team1Key addLoss (AList.map_entry team2Key addWin m4)
                     else m4);
               m6 = AList.map_entry team1Key setDifferential m5
           in AList.map_entry team2Key setDifferential m6)
      | _ \<Rightarrow> teamMap)"

definition teamMapOf :: "Round list \<Rightarrow> TeamStats dict" where
  "teamMapOf rounds = fold (\<lambda>r teamMap. fold addTeamGame (games r) teamMap) rounds []"

definition byWinsThenDifferential :: "TeamStats \<Rightarrow> TeamStats \<Rightarrow> int" where
  "byWinsThenDifferential a b =
     (if team_wins b \<noteq> team_wins a then team_wins b - team_wins a
      else pointDifferential b - pointDifferential a)"

text \<open>\<open>Array.from(teamMap.values()).sort(...)\<close>: a \<open>Map\<close> iterates in insertion order.\<close>

definition calculateTeamStats :: "Round list \<Rightarrow> TeamStats list" where
  "calculateTeamStats rounds = sortArray byWinsThenDifferential (map snd (teamMapOf rounds))"

section \<open>Properties of schedules\<close>

text \<open>
  The vocabulary of the claims about generated schedules. \<open>partners a b g\<close>: players \<open>a\<close> and
  \<open>b\<close> form one side of game \<open>g\<close>; \<open>playsIn p g\<close>: player \<open>p\<close> is one of the four players of
  \<open>g\<close>; \<open>unscored g\<close>: neither score is recorded.
\<close>

definition allGames :: "Round list \<Rightarrow> Game list" where
  "allGames rounds = concat (map games rounds)"

definition partners :: "player \<Rightarrow> player \<Rightarrow> Game \<Rightarrow> bool" where
  "partners a b g = (team1 g = (a, b) \<or> team1 g = (b, a) \<or> team2 g = (a, b) \<or> team2 g = (b, a))"

definition playsIn :: "player \<Rightarrow> Game \<Rightarrow> bool" where
  "playsIn p g = (p = fst (team1 g) \<or> p = snd (team1 g) \<or> p = fst (team2 g) \<or> p = snd (team2 g))"

definition unscored :: "Game \<Rightarrow> bool" where
  "unscored g = (team1Score g = None \<and> team2Score g = None)"

text \<open>
  A team of the 12-player format is identified by the unordered pair of its players
  (\<open>teamId\<close>); a matchup is the unordered pair of the two teams of a game. \<open>members ts\<close> lists
  the players of the teams \<open>ts\<close>, so \<open>ts\<close> partitions \<open>players\<close> when
  \<open>mset (members ts) = mset players\<close>.
\<close>

definition teamId :: "pair \<Rightarrow> player set" where
  "teamId t = {fst t, snd t}"

definition matchup :: "Game \<Rightarrow> player set set" where
  "matchup g = {teamId (team1 g), teamId (team2 g)}"

definition meets :: "player set \<Rightarrow> player set \<Rightarrow> Game \<Rightarrow> bool" where
  "meets T U g = (matchup g = {T, U})"

definition teamPlays :: "player set \<Rightarrow> Game \<Rightarrow> bool" where
  "teamPlays T g = (T \<in> matchup g)"

definition teamsOf :: "Round list \<Rightarrow> player set set" where
  "teamsOf rounds = \<Union> (matchup ` set (allGames rounds))"

definition members :: "pair list \<Rightarrow> player list" where
  "members ts = concat (map (\<lambda>(a, b). [a, b]) ts)"

text \<open>
  Slot-level counterparts, used to check the two designs on positions before the positions
  are replaced by players or teams: \<open>slotSides\<close> is the substitution the arrow function of
  \<open>generateRoundRobinSchedule\<close> performs on one entry of \<open>schedule\<close>; \<open>circle\<close> is the table of
  team indices that the loops of \<open>generate12PlayerSchedule\<close> run through (lemma
  \<open>roundLoop_sides\<close> below derives it from \<open>roundLoop\<close>).
\<close>

definition sides :: "Game \<Rightarrow> pair \<times> pair" where
  "sides g = (team1 g, team2 g)"

definition slotSides :: "'a list \<Rightarrow> nat list \<Rightarrow> ('a \<times> 'a) \<times> ('a \<times> 'a)" where
  "slotSides xs gi = ((xs ! (gi ! 0), xs ! (gi ! 1)), (xs ! (gi ! 2), xs ! (gi ! 3)))"

definition slotPartners :: "nat \<Rightarrow> nat \<Rightarrow> nat list \<Rightarrow> bool" where
  "slotPartners i j gi = ((gi ! 0 = i \<and> gi ! 1 = j) \<or> (gi ! 0 = j \<and> gi ! 1 = i)
     \<or> (gi ! 2 = i \<and> gi ! 3 = j) \<or> (gi ! 2 = j \<and> gi ! 3 = i))"

definition slotPlays :: "nat \<Rightarrow> nat list \<Rightarrow> bool" where
  "slotPlays i gi = (i = gi ! 0 \<or> i = gi ! 1 \<or> i = gi ! 2 \<or> i = gi ! 3)"

definition circle :: "(nat \<times> nat) list list" where
  "circle =
    [[(0, 1), (2, 5), (3, 4)],
     [(0, 5), (1, 4), (2, 3)],
     [(0, 4), (5, 3), (1, 2)],
     [(0, 3), (4, 2), (5, 1)],
     [(0, 2), (3, 1), (4, 5)]]"

definition slotTeams :: "'a list \<Rightarrow> nat \<times> nat \<Rightarrow> 'a \<times> 'a" where
  "slotTeams ts m = (ts ! fst m, ts ! snd m)"

definition slotMeets :: "nat \<Rightarrow> nat \<Rightarrow> nat \<times> nat \<Rightarrow> bool" where
  "slotMeets i j m = ({fst m, snd m} = {i, j})"

definition slotTeamPlays :: "nat \<Rightarrow> nat \<times> nat \<Rightarrow> bool" where
  "slotTeamPlays i m = (i = fst m \<or> i = snd m)"

section \<open>Properties of the statistics\<close>

text \<open>
  A game is \<open>scored\<close> when both scores are recorded. \<open>sideScores g\<close> lists, for a scored
  game, each of its four players with the score of the player's side, in the order the
  statistics visit them; \<open>scoresOf p rounds\<close> are the side scores of player \<open>p\<close> over the
  schedule, in chronological order; \<open>appearsScored p rounds\<close>: \<open>p\<close> plays in some scored game;
  \<open>onlyScored\<close> drops the unscored games of a round.
\<close>

definition scored :: "Game \<Rightarrow> bool" where
  "scored g = (team1Score g \<noteq> None \<and> team2Score g \<noteq> None)"

definition sideScores :: "Game \<Rightarrow> (player \<times> int) list" where
  "sideScores g =
     (case (team1Score g, team2Score g) of
        (Some s1, Some s2) \<Rightarrow>
          [(fst (team1 g), s1), (snd (team1 g), s1), (fst (team2 g), s2), (snd (team2 g), s2)]
      | _ \<Rightarrow> [])"

definition scoresOf :: "player \<Rightarrow> Round list \<Rightarrow> int list" where
  "scoresOf p rounds = map snd (filter (\<lambda>e. fst e = p) (concat (map sideScores (allGames rounds))))"

definition appearsScored :: "player \<Rightarrow> Round list \<Rightarrow> bool" where
  "appearsScored p rounds = list_ex (\<lambda>g. scored g \<and> playsIn p g) (allGames rounds)"

definition onlyScored :: "Round \<Rightarrow> Round" where
  "onlyScored r = r\<lparr>games := filter scored (games r)\<rparr>"

text \<open>
  \<open>firsts xs\<close> keeps the first occurrence of every element of \<open>xs\<close>; the encounter order of
  the players is the order of their first appearance in a scored game.
\<close>

primrec firsts :: "'a list \<Rightarrow> 'a list" where
  "firsts [] = []"
| "firsts (x # xs) = x # removeAll x (firsts xs)"

definition encounterOrder :: "Round list \<Rightarrow> player list" where
  "encounterOrder rounds = firsts (map fst (concat (map sideScores (allGames rounds))))"

text \<open>
  \<open>plainSchedule rounds\<close>: no player of a scored game bears the name of a property of
  \<open>Object.prototype\<close>.
\<close>

definition plainSchedule :: "Round list \<Rightarrow> bool" where
  "plainSchedule rounds = list_all (\<lambda>p. \<not> inherited p) (encounterOrder rounds)"

text \<open>
  For the proofs, a scored game is read as four events (player, side score, whether the
  code counts the game as won by the player). \<open>tryEvent\<close> is the callback of the code on one
  event; \<open>applyEvent\<close> is what it does when it does not throw: it creates the player's entry
  if there is none and applies the update \<open>bump\<close> to it; \<open>statsOf\<close> applies the events of a
  schedule in order.
\<close>

definition bump :: "int \<Rightarrow> bool \<Rightarrow> PlayerStats \<Rightarrow> PlayerStats" where
  "bump score won s = s\<lparr>totalPoints := totalPoints s + score,
     pointsLost := pointsLost s + (MAX_POINTS_PER_GAME - score),
     gameScores := gameScores s @ [score],
     gamesPlayed := gamesPlayed s + 1,
     wins := (if won then wins s + 1 else wins s),
     losses := (if won then losses s else losses s + 1)\<rparr>"

definition gameEvents :: "Game \<Rightarrow> (player \<times> int \<times> bool) list" where
  "gameEvents g =
     (case (team1Score g, team2Score g) of
        (Some s1, Some s2) \<Rightarrow>
          [(fst (team1 g), s1, s1 > s2), (snd (team1 g), s1, s1 > s2),
           (fst (team2 g), s2, \<not> s1 > s2), (snd (team2 g), s2, \<not> s1 > s2)]
      | _ \<Rightarrow> [])"

definition tryEvent :: "player \<times> int \<times> bool \<Rightarrow> PlayerStats dict \<Rightarrow> error + PlayerStats dict" where
  "tryEvent e stats = addTeam1Player (fst (snd e)) (snd (snd e)) (fst e) stats"

definition applyEvent :: "player \<times> int \<times> bool \<Rightarrow> PlayerStats dict \<Rightarrow> PlayerStats dict" where
  "applyEvent e stats =
     AList.map_entry (fst e) (bump (fst (snd e)) (snd (snd e)))
       (if map_of stats (fst e) = None then AList.update (fst e) newPlayerStats stats else stats)"

definition statsOf :: "Round list \<Rightarrow> PlayerStats dict" where
  "statsOf rounds = fold applyEvent (concat (map gameEvents (allGames rounds))) []"

text \<open>Small schedules on which the theorems are instantiated.\<close>

definition tieRound :: "Round list" where
  "tieRound = [\<lparr>roundNumber = 1, games =
     [\<lparr>ident = 1, team1 = (''A'', ''B''), team2 = (''C'', ''D''),
       team1Score = Some 21, team2Score = Some 21\<rparr>]\<rparr>]"

definition longRound :: "Round list" where
  "longRound = [\<lparr>roundNumber = 1, games =
     [\<lparr>ident = 1, team1 = (''A'', ''B''), team2 = (''C'', ''D''),
       team1Score = Some 25, team2Score = Some 23\<rparr>,
      \<lparr>ident = 2, team1 = (''E'', ''F''), team2 = (''G'', ''H''),
       team1Score = None, team2Score = None\<rparr>]\<rparr>,
    \<lparr>roundNumber = 2, games =
     [\<lparr>ident = 3, team1 = (''A'', ''C''), team2 = (''B'', ''D''),
       team1Score = Some 19, team2Score = Some 21\<rparr>,
      \<lparr>ident = 4, team1 = (''E'', ''G''), team2 = (''F'', ''H''),
       team1Score = Some 11, team2Score = None\<rparr>]\<rparr>]"

definition protoRound :: "Round list" where
  "protoRound = [\<lparr>roundNumber = 1, games =
     [\<lparr>ident = 1, team1 = (''constructor'', ''B''), team2 = (''C'', ''D''),
       team1Score = Some 25, team2Score = Some 23\<rparr>]\<rparr>]"


section \<open>Properties of payouts, side bets and team statistics\<close>

text \<open>\<open>prizeAt i\<close> is the prize of the player at index \<open>i\<close> of the ranking: 8, 6, 2, then nothing.\<close>

definition prizeAt :: "nat \<Rightarrow> int" where
  "prizeAt i = (if i = 0 then 8 else if i = 1 then 6 else if i = 2 then 2 else 0)"

text \<open>
  A side bet is \<open>settled\<close> when its winner is set. \<open>winners\<close> and \<open>losers\<close> are the players of
  the winning and of the losing side of a settled bet (none for an unsettled bet);
  \<open>betDelta p b\<close> is what bet \<open>b\<close> adds to the total of player \<open>p\<close>: the stake for each place
  of \<open>p\<close> on the winning side, minus the stake for each place on the losing side.
\<close>

definition settled :: "SideBet \<Rightarrow> bool" where
  "settled b = (winner b \<noteq> None)"

definition winners :: "SideBet \<Rightarrow> player list" where
  "winners b =
     (case winner b of
        Some Side1 \<Rightarrow> [fst (bet_team1 b), snd (bet_team1 b)]
      | Some Side2 \<Rightarrow> [fst (bet_team2 b), snd (bet_team2 b)]
      | None \<Rightarrow> [])"

definition losers :: "SideBet \<Rightarrow> player list" where
  "losers b =
     (case winner b of
        Some Side1 \<Rightarrow> [fst (bet_team2 b), snd (bet_team2 b)]
      | Some Side2 \<Rightarrow> [fst (bet_team1 b), snd (bet_team1 b)]
      | None \<Rightarrow> [])"

definition betDelta :: "player \<Rightarrow> SideBet \<Rightarrow> int" where
  "betDelta p b = amount b * int (count_list (winners b) p) - amount b * int (count_list (losers b) p)"

definition inSettledBet :: "player \<Rightarrow> SideBet list \<Rightarrow> bool" where
  "inSettledBet p bets = list_ex (\<lambda>b. p \<in> set (winners b @ losers b)) bets"

text \<open>\<open>plainBets bets\<close>: no player of a settled bet bears the name of a property of \<open>Object.prototype\<close>.\<close>

definition plainBets :: "SideBet list \<Rightarrow> bool" where
  "plainBets bets = list_all (\<lambda>b. list_all (\<lambda>p. \<not> inherited p) (winners b @ losers b)) bets"

text \<open>
  For the proofs, a settled bet is read as four events (player, signed stake), added to
  integer totals by \<open>addDelta\<close>; \<open>numDict\<close> is a dictionary of integers as one of numbers.
\<close>

definition betEvents :: "SideBet \<Rightarrow> (player \<times> int) list" where
  "betEvents b = map (\<lambda>q. (q, amount b)) (winners b) @ map (\<lambda>q. (q, - amount b)) (losers b)"

definition addDelta :: "player \<times> int \<Rightarrow> int dict \<Rightarrow> int dict" where
  "addDelta e totals =
     AList.update (fst e) ((case map_of totals (fst e) of None \<Rightarrow> 0 | Some t \<Rightarrow> t) + snd e) totals"

definition numDict :: "int dict \<Rightarrow> val dict" where
  "numDict m = map (\<lambda>e. (fst e, Num (snd e))) m"

text \<open>
  \<open>ranksBefore a b\<close>: team \<open>a\<close> may stand before team \<open>b\<close> in the ranking. The encounter order
  of the teams is the order in which their keys first occur in scored games; \<open>teamInv\<close> is
  the invariant of the entries of the team map.
\<close>

definition ranksBefore :: "TeamStats \<Rightarrow> TeamStats \<Rightarrow> bool" where
  "ranksBefore a b = (team_wins a > team_wins b
     \<or> (team_wins a = team_wins b \<and> pointDifferential a \<ge> pointDifferential b))"

definition teamKeysOf :: "Game \<Rightarrow> string list" where
  "teamKeysOf g = (if scored g then [teamKey (team1 g), teamKey (team2 g)] else [])"

definition teamEncounterOrder :: "Round list \<Rightarrow> string list" where
  "teamEncounterOrder rounds = firsts (concat (map teamKeysOf (allGames rounds)))"

definition addKey :: "'a \<Rightarrow> 'a list \<Rightarrow> 'a list" where
  "addKey k ks = (if k \<in> set ks then ks else ks @ [k])"

definition teamInv :: "string \<Rightarrow> TeamStats \<Rightarrow> bool" where
  "teamInv k t = (pointDifferential t = pointsScored t - pointsConceded t \<and> teamName t = k)"

text \<open>More schedules and bets on which the theorems are instantiated.\<close>

definition freshRound :: "Round list" where
  "freshRound = [\<lparr>roundNumber = 1, games =
     [\<lparr>ident = 1, team1 = (''A'', ''B''), team2 = (''C'', ''D''), team1Score = None, team2Score = None\<rparr>,
      \<lparr>ident = 2, team1 = (''E'', ''F''), team2 = (''G'', ''H''), team1Score = None, team2Score = None\<rparr>]\<rparr>]"

definition numberedRound :: "Round list" where
  "numberedRound = [\<lparr>roundNumber = 1, games =
     [\<lparr>ident = 1, team1 = (''2'', ''1''), team2 = (''4'', ''3''), team1Score = Some 21, team2Score = Some 15\<rparr>]\<rparr>]"

definition fullRound :: "Round list" where
  "fullRound = [\<lparr>roundNumber = 1, games =
     [\<lparr>ident = 1, team1 = (''Alice'', ''Bob''), team2 = (''Charlie'', ''David''), team1Score = Some 21, team2Score = Some 10\<rparr>,
      \<lparr>ident = 2, team1 = (''Eve'', ''Frank''), team2 = (''Grace'', ''Henry''), team1Score = Some 19, team2Score = Some 15\<rparr>]\<rparr>]"

definition teamRounds :: "Round list" where
  "teamRounds = [\<lparr>roundNumber = 1, games =
     [\<lparr>ident = 1, team1 = (''Bob'', ''Alice''), team2 = (''Charlie'', ''David''), team1Score = Some 21, team2Score = Some 15\<rparr>,
      \<lparr>ident = 2, team1 = (''Eve'', ''Frank''), team2 = (''Grace'', ''Henry''), team1Score = Some 18, team2Score = Some 21\<rparr>]\<rparr>,
    \<lparr>roundNumber = 2, games =
     [\<lparr>ident = 3, team1 = (''Alice'', ''Bob''), team2 = (''Eve'', ''Frank''), team1Score = Some 19, team2Score = Some 21\<rparr>,
      \<lparr>ident = 4, team1 = (''Charlie'', ''David''), team2 = (''Grace'', ''Henry''), team1Score = None, team2Score = None\<rparr>]\<rparr>]"

definition someBets :: "SideBet list" where
  "someBets =
     [\<lparr>bet_id = 1, bet_team1 = (''A'', ''B''), bet_team2 = (''C'', ''D''), amount = 5, winner = Some Side1\<rparr>,
      \<lparr>bet_id = 2, bet_team1 = (''A'', ''C''), bet_team2 = (''E'', ''F''), amount = 3, winner = None\<rparr>,
      \<lparr>bet_id = 3, bet_team1 = (''A'', ''C''), bet_team2 = (''B'', ''D''), amount = 2, winner = Some Side2\<rparr>]"

definition protoBets :: "SideBet list" where
  "protoBets =
     [\<lparr>bet_id = 1, bet_team1 = (''constructor'', ''B''), bet_team2 = (''C'', ''D''), amount = 5, winner = Some Side1\<rparr>]"

section \<open>The shuffle permutes\<close>

lemma rand_index_le:
  assumes "0 \<le> u" "u < 1"
  shows "nat \<lfloor>u * real (i + 1)\<rfloor> \<le> i"
proof -
  have "u * real (i + 1) < real (i + 1)"
    using assms by (simp add: mult_less_cancel_right1 del: of_nat_add of_nat_Suc)
  then have "\<lfloor>u * real (i + 1)\<rfloor> < int (i + 1)"
    by (simp add: floor_less_iff del: of_nat_add)
  then show ?thesis by linarith
qed

lemma shuffle_loop_mset:
  assumes "\<forall>k. 0 \<le> rand k \<and> rand k < 1"
  shows "i < length xs \<Longrightarrow> mset (shuffle_loop rand k i xs) = mset xs"
proof (induction i arbitrary: k xs)
  case 0
  then show ?case by simp
next
  case (Suc i)
  let ?j = "nat \<lfloor>rand k * real (Suc i + 1)\<rfloor>"
  have j: "?j \<le> Suc i" using assms rand_index_le[of "rand k" "Suc i"] by simp
  have "mset (xs[Suc i := xs ! ?j, ?j := xs ! Suc i]) = mset xs"
    using Suc.prems j by (intro mset_swap) auto
  moreover have "i < length (xs[Suc i := xs ! ?j, ?j := xs ! Suc i])"
    using Suc.prems by simp
  ultimately show ?case using Suc.IH[of "xs[Suc i := xs ! ?j, ?j := xs ! Suc i]" "k + 1"]
    by (simp add: Let_def)
qed

lemma shuffleArray_mset:
  assumes "\<forall>k. 0 \<le> rand k \<and> rand k < 1"
  shows "mset (shuffleArray rand xs) = mset xs"
proof (cases xs)
  case Nil
  then show ?thesis by (simp add: shuffleArray_def)
next
  case (Cons a list)
  then show ?thesis unfolding shuffleArray_def
    by (intro shuffle_loop_mset[OF assms]) simp
qed

section \<open>The 8-player design\<close>

lemma below8: "(i::nat) < 8 \<Longrightarrow> i \<in> {0, 1, 2, 3, 4, 5, 6, 7}"
  by auto

lemma template_slots: "\<forall>gi \<in> set (concat schedule). gi ! 0 < 8 \<and> gi ! 1 < 8 \<and> gi ! 2 < 8 \<and> gi ! 3 < 8"
  by (simp add: schedule_def)

lemma template_partners_set:
  "\<forall>i \<in> {0, 1, 2, 3, 4, 5, 6, 7}. \<forall>j \<in> {0, 1, 2, 3, 4, 5, 6, 7}. i \<noteq> j \<longrightarrow>
     length (filter (slotPartners i j) (concat schedule)) = 1"
  by (simp add: schedule_def slotPartners_def)

lemma template_round_set:
  "\<forall>i \<in> {0, 1, 2, 3, 4, 5, 6, 7}. \<forall>rg \<in> set schedule. length (filter (slotPlays i) rg) = 1"
  by (simp add: schedule_def slotPlays_def)

lemma template_plays_set:
  "\<forall>i \<in> {0, 1, 2, 3, 4, 5, 6, 7}. length (filter (slotPlays i) (concat schedule)) = 7"
  by (simp add: schedule_def slotPlays_def)

lemma mapGames_sides:
  "map sides (fst (mapGames sp n rg)) = map (slotSides sp) rg"
  by (induction rg arbitrary: n) (simp_all add: sides_def slotSides_def split_beta Let_def)

lemma mapGames_ident:
  "map ident (fst (mapGames sp n rg)) = [n ..< n + length rg] \<and> snd (mapGames sp n rg) = n + length rg"
  by (induction rg arbitrary: n) (simp_all add: split_beta Let_def upt_rec)

lemma forEachRound_sides:
  "map (\<lambda>r. map sides (games r)) (forEachRound sp n k sched) = map (map (slotSides sp)) sched"
  by (induction sched arbitrary: n k) (simp_all add: split_beta Let_def mapGames_sides)

lemma forEachRound_ident:
  "map ident (allGames (forEachRound sp n k sched)) = [n ..< n + length (concat sched)]"
proof (induction sched arbitrary: n k)
  case Nil
  then show ?case by (simp add: allGames_def)
next
  case (Cons rg sched)
  have "[n..<n + length rg] @ [n + length rg..<n + length rg + length (concat sched)]
      = [n..<n + length rg + length (concat sched)]"
    by (metis le_add1 upt_add_eq_append)
  with Cons[of "n + length rg" "k + 1"] show ?case
    by (simp add: allGames_def split_beta mapGames_ident add.assoc)
qed

lemma forEachRound_roundNumber:
  "map roundNumber (forEachRound sp n k sched) = [k + 1 ..< k + 1 + length sched]"
  by (induction sched arbitrary: n k) (simp_all add: split_beta upt_rec)

lemma length_filter_related:
  assumes "map f xs = map g ys"
    and "\<And>x y. y \<in> set ys \<Longrightarrow> f x = g y \<Longrightarrow> P x = Q y"
  shows "length (filter P xs) = length (filter Q ys)"
proof -
  have "length xs = length ys" using assms(1) by (rule map_eq_imp_length_eq)
  then show ?thesis using assms
    by (induction xs ys rule: list_induct2) auto
qed

lemma partners_slots:
  assumes "distinct sp" "i < length sp" "j < length sp"
    and "gi ! 0 < length sp \<and> gi ! 1 < length sp \<and> gi ! 2 < length sp \<and> gi ! 3 < length sp"
    and "sides g = slotSides sp gi"
  shows "partners (sp ! i) (sp ! j) g = slotPartners i j gi"
  using assms by (auto simp: partners_def slotPartners_def sides_def slotSides_def nth_eq_iff_index_eq)

lemma playsIn_slots:
  assumes "distinct sp" "i < length sp"
    and "gi ! 0 < length sp \<and> gi ! 1 < length sp \<and> gi ! 2 < length sp \<and> gi ! 3 < length sp"
    and "sides g = slotSides sp gi"
  shows "playsIn (sp ! i) g = slotPlays i gi"
  using assms by (auto simp: playsIn_def slotPlays_def sides_def slotSides_def nth_eq_iff_index_eq)

lemma allGames_sides:
  "map sides (allGames (forEachRound sp n k sched)) = map (slotSides sp) (concat sched)"
proof -
  have "map sides (allGames (forEachRound sp n k sched))
      = concat (map (\<lambda>r. map sides (games r)) (forEachRound sp n k sched))"
    by (simp add: allGames_def map_concat comp_def)
  then show ?thesis by (simp add: forEachRound_sides map_concat)
qed

lemma round_slots:
  assumes "r \<in> set (forEachRound sp n k sched)"
  shows "\<exists>rg \<in> set sched. map sides (games r) = map (slotSides sp) rg"
proof -
  have "map sides (games r) \<in> set (map (\<lambda>r. map sides (games r)) (forEachRound sp n k sched))"
    using assms by auto
  then show ?thesis unfolding forEachRound_sides by auto
qed

lemma forEachRound_unscored:
  "g \<in> set (allGames (forEachRound sp n k sched)) \<Longrightarrow> unscored g"
proof (induction sched arbitrary: n k)
  case Nil
  then show ?case by (simp add: allGames_def)
next
  case (Cons rg sched)
  have inner: "\<And>m. g \<in> set (fst (mapGames sp m rg)) \<Longrightarrow> unscored g"
  proof (induction rg)
    case Nil
    then show ?case by simp
  next
    case (Cons gi rg)
    then show ?case by (auto simp: split_beta Let_def unscored_def)
  qed
  from Cons.prems Cons.IH inner show ?case
    by (auto simp: allGames_def split_beta)
qed

lemma schedule_length: "length schedule = 7"
  by (simp add: schedule_def)

lemma schedule_games: "length (concat schedule) = 14"
  by (simp add: schedule_def)

text \<open>
  Claim C2. For every list of 8 distinct players and every outcome of the draws of
  \<open>Math.random\<close>, \<open>generateRoundRobinSchedule\<close> returns 7 rounds (numbered 1 to 7) of 2
  unscored games each, the 14 games carrying the identifiers 1 to 14 in order; every two
  different players are partners in exactly one game; every player plays exactly one game
  of every round, and 7 games in all.
\<close>

theorem generateRoundRobinSchedule_design:
  assumes len: "length players = 8" and dist: "distinct players"
    and rand: "\<forall>k. 0 \<le> rand k \<and> rand k < 1"
  shows "\<exists>rounds. generateRoundRobinSchedule rand players = Inr rounds
     \<and> length rounds = 7
     \<and> (\<forall>r \<in> set rounds. length (games r) = 2)
     \<and> map roundNumber rounds = [1..<8]
     \<and> map ident (allGames rounds) = [1..<15]
     \<and> (\<forall>g \<in> set (allGames rounds). unscored g)
     \<and> (\<forall>a \<in> set players. \<forall>b \<in> set players. a \<noteq> b \<longrightarrow>
           length (filter (partners a b) (allGames rounds)) = 1)
     \<and> (\<forall>p \<in> set players. \<forall>r \<in> set rounds. length (filter (playsIn p) (games r)) = 1)
     \<and> (\<forall>p \<in> set players. length (filter (playsIn p) (allGames rounds)) = 7)"
proof -
  define sp where "sp = shuffleArray rand players"
  define rounds where "rounds = forEachRound sp 1 0 schedule"
  have ms: "mset sp = mset players" unfolding sp_def by (rule shuffleArray_mset[OF rand])
  have sp_len: "length sp = 8" using ms len by (metis mset_eq_length)
  have sp_dist: "distinct sp" using ms dist by (metis mset_eq_imp_distinct_iff)
  have sp_set: "set players = set sp" using ms by (metis mset_eq_setD)
  have slots: "\<And>gi. gi \<in> set (concat schedule) \<Longrightarrow>
      gi ! 0 < length sp \<and> gi ! 1 < length sp \<and> gi ! 2 < length sp \<and> gi ! 3 < length sp"
    using template_slots sp_len by auto
  have res: "generateRoundRobinSchedule rand players = Inr rounds"
    by (simp add: generateRoundRobinSchedule_def len rounds_def sp_def)
  have n_rounds: "length rounds = 7"
    using arg_cong[OF forEachRound_roundNumber[of sp 1 0 schedule], of length]
    by (simp add: rounds_def schedule_def)
  have "map roundNumber rounds = [0 + 1..<0 + 1 + length schedule]"
    unfolding rounds_def by (rule forEachRound_roundNumber)
  also have "\<dots> = [1..<8]" by (simp add: schedule_length)
  finally have numbers: "map roundNumber rounds = [1..<8]" .
  have "map ident (allGames rounds) = [1..<1 + length (concat schedule)]"
    unfolding rounds_def by (rule forEachRound_ident)
  also have "\<dots> = [1..<15]" by (simp add: schedule_games)
  finally have idents: "map ident (allGames rounds) = [1..<15]" .
  have n_games: "\<forall>r \<in> set rounds. length (games r) = 2"
  proof
    fix r assume "r \<in> set rounds"
    then obtain rg where rg: "rg \<in> set schedule" "map sides (games r) = map (slotSides sp) rg"
      unfolding rounds_def using round_slots by blast
    from rg(1) have "length rg = 2" by (auto simp: schedule_def)
    with map_eq_imp_length_eq[OF rg(2)] show "length (games r) = 2" by simp
  qed
  have fresh: "\<forall>g \<in> set (allGames rounds). unscored g"
    unfolding rounds_def using forEachRound_unscored by blast
  have pairs: "\<forall>a \<in> set players. \<forall>b \<in> set players. a \<noteq> b \<longrightarrow>
           length (filter (partners a b) (allGames rounds)) = 1"
  proof (intro ballI impI)
    fix a b assume "a \<in> set players" "b \<in> set players" "a \<noteq> b"
    then obtain i j where ij: "i < 8" "j < 8" "a = sp ! i" "b = sp ! j" "i \<noteq> j"
      unfolding sp_set using sp_len by (metis in_set_conv_nth)
    have "length (filter (partners a b) (allGames rounds))
        = length (filter (slotPartners i j) (concat schedule))"
      unfolding rounds_def
    proof (rule length_filter_related[OF allGames_sides])
      fix g gi assume "gi \<in> set (concat schedule)" "sides g = slotSides sp gi"
      then show "partners a b g = slotPartners i j gi"
        using partners_slots[OF sp_dist, of i j gi g] slots[of gi] ij sp_len by simp
    qed
    also have "\<dots> = 1"
      using template_partners_set below8[OF ij(1)] below8[OF ij(2)] ij(5) by blast
    finally show "length (filter (partners a b) (allGames rounds)) = 1" .
  qed
  have per_round: "\<forall>p \<in> set players. \<forall>r \<in> set rounds. length (filter (playsIn p) (games r)) = 1"
  proof (intro ballI)
    fix p r assume "p \<in> set players" and r: "r \<in> set rounds"
    then obtain i where i: "i < 8" "p = sp ! i"
      unfolding sp_set using sp_len by (metis in_set_conv_nth)
    from r obtain rg where rg: "rg \<in> set schedule" "map sides (games r) = map (slotSides sp) rg"
      unfolding rounds_def using round_slots by blast
    have "length (filter (playsIn p) (games r)) = length (filter (slotPlays i) rg)"
    proof (rule length_filter_related[OF rg(2)])
      fix g gi assume "gi \<in> set rg" "sides g = slotSides sp gi"
      moreover from this rg(1) have "gi \<in> set (concat schedule)" by auto
      ultimately show "playsIn p g = slotPlays i gi"
        using playsIn_slots[OF sp_dist, of i gi g] slots[of gi] i sp_len by simp
    qed
    also have "\<dots> = 1"
      using template_round_set below8[OF i(1)] rg(1) by blast
    finally show "length (filter (playsIn p) (games r)) = 1" .
  qed
  have total: "\<forall>p \<in> set players. length (filter (playsIn p) (allGames rounds)) = 7"
  proof
    fix p assume "p \<in> set players"
    then obtain i where i: "i < 8" "p = sp ! i"
      unfolding sp_set using sp_len by (metis in_set_conv_nth)
    have "length (filter (playsIn p) (allGames rounds)) = length (filter (slotPlays i) (concat schedule))"
      unfolding rounds_def
    proof (rule length_filter_related[OF allGames_sides])
      fix g gi assume "gi \<in> set (concat schedule)" "sides g = slotSides sp gi"
      then show "playsIn p g = slotPlays i gi"
        using playsIn_slots[OF sp_dist, of i gi g] slots[of gi] i sp_len by simp
    qed
    also have "\<dots> = 7"
      using template_plays_set below8[OF i(1)] by blast
    finally show "length (filter (playsIn p) (allGames rounds)) = 7" .
  qed
  from res n_rounds n_games numbers idents fresh pairs per_round total show ?thesis by blast
qed

theorem generateRoundRobinSchedule_design_witness:
  "length [''A'', ''B'', ''C'', ''D'', ''E'', ''F'', ''G'', ''H''] = 8
   \<and> distinct [''A'', ''B'', ''C'', ''D'', ''E'', ''F'', ''G'', ''H'']
   \<and> (\<forall>k::nat. (0::real) \<le> 0 \<and> (0::real) < 1)
   \<and> (\<exists>rounds. generateRoundRobinSchedule (\<lambda>k. 0) [''A'', ''B'', ''C'', ''D'', ''E'', ''F'', ''G'', ''H''] = Inr rounds
     \<and> length rounds = 7
     \<and> (\<forall>r \<in> set rounds. length (games r) = 2)
     \<and> map roundNumber rounds = [1..<8]
     \<and> map ident (allGames rounds) = [1..<15]
     \<and> (\<forall>g \<in> set (allGames rounds). unscored g)
     \<and> (\<forall>a \<in> set [''A'', ''B'', ''C'', ''D'', ''E'', ''F'', ''G'', ''H'']. \<forall>b \<in> set [''A'', ''B'', ''C'', ''D'', ''E'', ''F'', ''G'', ''H'']. a \<noteq> b \<longrightarrow>
           length (filter (partners a b) (allGames rounds)) = 1)
     \<and> (\<forall>p \<in> set [''A'', ''B'', ''C'', ''D'', ''E'', ''F'', ''G'', ''H'']. \<forall>r \<in> set rounds. length (filter (playsIn p) (games r)) = 1)
     \<and> (\<forall>p \<in> set [''A'', ''B'', ''C'', ''D'', ''E'', ''F'', ''G'', ''H'']. length (filter (playsIn p) (allGames rounds)) = 7))"
  (is "?len \<and> ?dist \<and> ?rand \<and> ?concl")
proof -
  have len: ?len by simp
  have dist: ?dist by simp
  have rand: ?rand by simp
  have ?concl by (rule generateRoundRobinSchedule_design) simp_all
  with len dist rand show ?thesis by blast
qed

section \<open>The 12-player circle\<close>

lemma roundLoop_rounds:
  "roundLoop ts 0 [1, 2, 3, 4, 5] 1 [] =
   [\<lparr>roundNumber = 1, games =
       [\<lparr>ident = 1, team1 = ts ! 0, team2 = ts ! 1, team1Score = None, team2Score = None\<rparr>,
        \<lparr>ident = 2, team1 = ts ! 2, team2 = ts ! 5, team1Score = None, team2Score = None\<rparr>,
        \<lparr>ident = 3, team1 = ts ! 3, team2 = ts ! 4, team1Score = None, team2Score = None\<rparr>]\<rparr>,
    \<lparr>roundNumber = 2, games =
       [\<lparr>ident = 4, team1 = ts ! 0, team2 = ts ! 5, team1Score = None, team2Score = None\<rparr>,
        \<lparr>ident = 5, team1 = ts ! 1, team2 = ts ! 4, team1Score = None, team2Score = None\<rparr>,
        \<lparr>ident = 6, team1 = ts ! 2, team2 = ts ! 3, team1Score = None, team2Score = None\<rparr>]\<rparr>,
    \<lparr>roundNumber = 3, games =
       [\<lparr>ident = 7, team1 = ts ! 0, team2 = ts ! 4, team1Score = None, team2Score = None\<rparr>,
        \<lparr>ident = 8, team1 = ts ! 5, team2 = ts ! 3, team1Score = None, team2Score = None\<rparr>,
        \<lparr>ident = 9, team1 = ts ! 1, team2 = ts ! 2, team1Score = None, team2Score = None\<rparr>]\<rparr>,
    \<lparr>roundNumber = 4, games =
       [\<lparr>ident = 10, team1 = ts ! 0, team2 = ts ! 3, team1Score = None, team2Score = None\<rparr>,
        \<lparr>ident = 11, team1 = ts ! 4, team2 = ts ! 2, team1Score = None, team2Score = None\<rparr>,
        \<lparr>ident = 12, team1 = ts ! 5, team2 = ts ! 1, team1Score = None, team2Score = None\<rparr>]\<rparr>,
    \<lparr>roundNumber = 5, games =
       [\<lparr>ident = 13, team1 = ts ! 0, team2 = ts ! 2, team1Score = None, team2Score = None\<rparr>,
        \<lparr>ident = 14, team1 = ts ! 3, team2 = ts ! 1, team1Score = None, team2Score = None\<rparr>,
        \<lparr>ident = 15, team1 = ts ! 4, team2 = ts ! 5, team1Score = None, team2Score = None\<rparr>]\<rparr>]"
  by (simp add: roundLoop.simps pairRemaining.simps)

lemma roundLoop_sides:
  "map (\<lambda>r. map sides (games r)) (roundLoop ts 0 [1, 2, 3, 4, 5] 1 []) = map (map (slotTeams ts)) circle"
  unfolding roundLoop_rounds by (simp add: circle_def sides_def slotTeams_def)

lemma roundLoop_allGames_sides:
  "map sides (allGames (roundLoop ts 0 [1, 2, 3, 4, 5] 1 [])) = map (slotTeams ts) (concat circle)"
  unfolding roundLoop_rounds by (simp add: circle_def sides_def slotTeams_def allGames_def)

lemma below6: "(i::nat) < 6 \<Longrightarrow> i \<in> {0, 1, 2, 3, 4, 5}"
  by auto

lemma circle_slots: "\<forall>m \<in> set (concat circle). fst m < 6 \<and> snd m < 6 \<and> fst m \<noteq> snd m"
  by (simp add: circle_def)

lemma circle_meets_set:
  "\<forall>i \<in> {0, 1, 2, 3, 4, 5}. \<forall>j \<in> {0, 1, 2, 3, 4, 5}. i \<noteq> j \<longrightarrow>
     length (filter (slotMeets i j) (concat circle)) = 1"
  by (simp add: circle_def slotMeets_def doubleton_eq_iff)

lemma circle_round_set:
  "\<forall>i \<in> {0, 1, 2, 3, 4, 5}. \<forall>rg \<in> set circle. length (filter (slotTeamPlays i) rg) = 1"
  by (simp add: circle_def slotTeamPlays_def)

lemma circle_plays_set:
  "\<forall>i \<in> {0, 1, 2, 3, 4, 5}. length (filter (slotTeamPlays i) (concat circle)) = 5"
  by (simp add: circle_def slotTeamPlays_def)

lemma circle_distinct: "distinct (map (\<lambda>m. {fst m, snd m}) (concat circle))"
  by (simp add: circle_def doubleton_eq_iff)

lemma circle_all: "(\<Union>m \<in> set (concat circle). {fst m, snd m}) = {0, 1, 2, 3, 4, 5}"
  by (auto simp: circle_def)

lemma circle_meets:
  "i < 6 \<Longrightarrow> j < 6 \<Longrightarrow> i \<noteq> j \<Longrightarrow> length (filter (slotMeets i j) (concat circle)) = 1"
  using circle_meets_set below6[of i] below6[of j] by blast

lemma circle_round:
  "i < 6 \<Longrightarrow> rg \<in> set circle \<Longrightarrow> length (filter (slotTeamPlays i) rg) = 1"
  using circle_round_set below6[of i] by blast

lemma circle_plays:
  "i < 6 \<Longrightarrow> length (filter (slotTeamPlays i) (concat circle)) = 5"
  using circle_plays_set below6[of i] by blast

lemma members_Cons: "members (t # ts) = fst t # snd t # members ts"
  by (simp add: members_def split_beta)

lemma members_Nil: "members [] = []"
  by (simp add: members_def)

lemma members_in:
  "u \<in> set ts \<Longrightarrow> fst u \<in> set (members ts) \<and> snd u \<in> set (members ts)"
  by (induction ts) (auto simp: members_Cons members_Nil)

lemma teamId_distinct:
  "distinct (members ts) \<Longrightarrow> distinct (map teamId ts)"
proof (induction ts)
  case Nil
  then show ?case by simp
next
  case (Cons t ts)
  have "teamId t \<notin> teamId ` set ts"
  proof
    assume "teamId t \<in> teamId ` set ts"
    then obtain u where u: "u \<in> set ts" "teamId t = teamId u" by blast
    from u(2) have "fst t = fst u \<or> fst t = snd u"
      unfolding teamId_def by (metis doubleton_eq_iff)
    then have "fst t \<in> set (members ts)"
      using members_in[OF u(1)] by metis
    moreover have "fst t \<notin> set (members ts)"
      using Cons.prems by (simp add: members_Cons)
    ultimately show False by simp
  qed
  moreover have "distinct (members ts)"
    using Cons.prems by (simp add: members_Cons)
  ultimately show ?case using Cons.IH by simp
qed

lemma matchup_slots:
  assumes "sides g = slotTeams ts m"
  shows "matchup g = {teamId (ts ! fst m), teamId (ts ! snd m)}"
  using assms by (simp add: matchup_def sides_def slotTeams_def)

lemma meets_slots:
  assumes "distinct (map teamId ts)" "i < length ts" "j < length ts"
    and "fst m < length ts" "snd m < length ts"
    and "sides g = slotTeams ts m"
  shows "meets (teamId (ts ! i)) (teamId (ts ! j)) g = slotMeets i j m"
proof -
  have eq: "\<And>a b. a < length ts \<Longrightarrow> b < length ts \<Longrightarrow> (teamId (ts ! a) = teamId (ts ! b)) = (a = b)"
    using assms(1) nth_eq_iff_index_eq[of "map teamId ts"] by fastforce
  show ?thesis
    unfolding meets_def slotMeets_def matchup_slots[OF assms(6)] doubleton_eq_iff
    using assms(2-5) by (simp add: eq)
qed

lemma teamPlays_slots:
  assumes "distinct (map teamId ts)" "i < length ts"
    and "fst m < length ts" "snd m < length ts"
    and "sides g = slotTeams ts m"
  shows "teamPlays (teamId (ts ! i)) g = slotTeamPlays i m"
proof -
  have eq: "\<And>a b. a < length ts \<Longrightarrow> b < length ts \<Longrightarrow> (teamId (ts ! a) = teamId (ts ! b)) = (a = b)"
    using assms(1) nth_eq_iff_index_eq[of "map teamId ts"] by fastforce
  show ?thesis
    unfolding teamPlays_def slotTeamPlays_def matchup_slots[OF assms(5)]
    using assms(2-4) by (simp add: eq)
qed

lemma distinct_map_inj: "distinct xs \<Longrightarrow> inj_on f (set xs) \<Longrightarrow> distinct (map f xs)"
  by (simp add: distinct_map)

lemma matchups_distinct:
  assumes "length ts = 6" "distinct (map teamId ts)"
  shows "distinct (map matchup (allGames (roundLoop ts 0 [1, 2, 3, 4, 5] 1 [])))"
proof -
  let ?ids = "map teamId ts"
  have "map matchup (allGames (roundLoop ts 0 [1, 2, 3, 4, 5] 1 []))
      = map (\<lambda>s. {teamId (fst s), teamId (snd s)}) (map sides (allGames (roundLoop ts 0 [1, 2, 3, 4, 5] 1 [])))"
    by (simp add: matchup_def sides_def comp_def)
  also have "\<dots> = map (\<lambda>m. {teamId (ts ! fst m), teamId (ts ! snd m)}) (concat circle)"
    unfolding roundLoop_allGames_sides by (simp add: slotTeams_def comp_def)
  also have "\<dots> = map (\<lambda>m. (!) ?ids ` {fst m, snd m}) (concat circle)"
  proof (intro map_cong refl)
    fix m assume "m \<in> set (concat circle)"
    then have "fst m < length ts" "snd m < length ts" using circle_slots assms(1) by auto
    then show "{teamId (ts ! fst m), teamId (ts ! snd m)} = (!) ?ids ` {fst m, snd m}"
      by simp
  qed
  also have "\<dots> = map ((`) ((!) ?ids)) (map (\<lambda>m. {fst m, snd m}) (concat circle))"
    by (simp add: comp_def)
  finally have eq: "map matchup (allGames (roundLoop ts 0 [1, 2, 3, 4, 5] 1 []))
      = map ((`) ((!) ?ids)) (map (\<lambda>m. {fst m, snd m}) (concat circle))" .
  have inj: "inj_on ((!) ?ids) {..<6}"
    using assms by (intro inj_on_nth) auto
  have sub: "\<Union> (set (map (\<lambda>m. {fst m, snd m}) (concat circle))) \<subseteq> {..<6}"
    using circle_slots by auto
  have "inj_on ((`) ((!) ?ids)) (set (map (\<lambda>m. {fst m, snd m}) (concat circle)))"
    by (rule inj_on_image[OF inj_on_subset[OF inj sub]])
  then show ?thesis unfolding eq
    by (rule distinct_map_inj[OF circle_distinct])
qed

lemma teamsOf_roundLoop:
  assumes "length ts = 6"
  shows "teamsOf (roundLoop ts 0 [1, 2, 3, 4, 5] 1 []) = set (map teamId ts)"
proof -
  obtain a b c d e f where ts: "ts = [a, b, c, d, e, f]"
    using assms by (auto simp: eval_nat_numeral length_Suc_conv)
  show ?thesis
    unfolding roundLoop_rounds teamsOf_def allGames_def ts
    by (auto simp: matchup_def)
qed

lemma below12: "(i::nat) < 12 \<Longrightarrow> i \<in> {0, 1, 2, 3, 4, 5, 6, 7, 8, 9, 10, 11}"
  by simp arith

lemma members_pairLoop:
  assumes "length sp = 12"
  shows "members (pairLoop sp 0 []) = sp"
proof (rule nth_equalityI)
  show "length (members (pairLoop sp 0 [])) = length sp"
    using assms by (simp add: pairLoop.simps members_Cons members_Nil)
next
  fix i assume "i < length (members (pairLoop sp 0 []))"
  then have "i < 12" by (simp add: pairLoop.simps members_Cons members_Nil)
  then have "i \<in> {0, 1, 2, 3, 4, 5, 6, 7, 8, 9, 10, 11}" by (rule below12)
  then show "members (pairLoop sp 0 []) ! i = sp ! i"
    by (auto simp: pairLoop.simps members_Cons members_Nil eval_nat_numeral)
qed

lemma pairLoop_length: "length (pairLoop sp 0 []) = 6"
  by (simp add: pairLoop.simps)

lemma round_teams:
  assumes "r \<in> set (roundLoop ts 0 [1, 2, 3, 4, 5] 1 [])"
  shows "\<exists>rg \<in> set circle. map sides (games r) = map (slotTeams ts) rg"
proof -
  have "map sides (games r) \<in> set (map (\<lambda>r. map sides (games r)) (roundLoop ts 0 [1, 2, 3, 4, 5] 1 []))"
    using assms by (metis (no_types, lifting) image_eqI set_map)
  then show ?thesis unfolding roundLoop_sides by auto
qed

lemma circle_length: "length circle = 5"
  by (simp add: circle_def)

lemma circle_games: "length (concat circle) = 15"
  by (simp add: circle_def)

lemma circle_round_length: "rg \<in> set circle \<Longrightarrow> length rg = 3"
  by (auto simp: circle_def)

lemma roundLoop_properties:
  assumes len: "length ts = 6" and dist: "distinct (members ts)"
  defines "rounds \<equiv> roundLoop ts 0 [1, 2, 3, 4, 5] 1 []"
  shows "length rounds = 5
     \<and> (\<forall>r \<in> set rounds. length (games r) = 3)
     \<and> card (teamsOf rounds) = 6
     \<and> (\<forall>T \<in> teamsOf rounds. \<forall>U \<in> teamsOf rounds. T \<noteq> U \<longrightarrow>
           length (filter (meets T U) (allGames rounds)) = 1)
     \<and> length (allGames rounds) = 15
     \<and> distinct (map matchup (allGames rounds))
     \<and> (\<forall>T \<in> teamsOf rounds. length (filter (teamPlays T) (allGames rounds)) = 5)
     \<and> (\<forall>T \<in> teamsOf rounds. \<forall>r \<in> set rounds. length (filter (teamPlays T) (games r)) = 1)"
proof -
  have ids: "distinct (map teamId ts)" using dist by (rule teamId_distinct)
  have teams: "teamsOf rounds = set (map teamId ts)"
    unfolding rounds_def using len by (rule teamsOf_roundLoop)
  have slots: "\<And>m. m \<in> set (concat circle) \<Longrightarrow> fst m < length ts \<and> snd m < length ts"
    using circle_slots len by auto
  have team_nth: "\<And>T. T \<in> teamsOf rounds \<Longrightarrow> \<exists>i < 6. T = teamId (ts ! i)"
    unfolding teams using len by (metis in_set_conv_nth length_map nth_map)
  have n_rounds: "length rounds = 5"
    using arg_cong[OF roundLoop_sides[of ts], of length] by (simp add: rounds_def circle_length)
  have n_games: "\<forall>r \<in> set rounds. length (games r) = 3"
  proof
    fix r assume "r \<in> set rounds"
    then obtain rg where rg: "rg \<in> set circle" "map sides (games r) = map (slotTeams ts) rg"
      unfolding rounds_def using round_teams by blast
    with map_eq_imp_length_eq[OF rg(2)] circle_round_length show "length (games r) = 3" by simp
  qed
  have six: "card (teamsOf rounds) = 6"
    unfolding teams using distinct_card[OF ids] len by simp
  have total: "length (allGames rounds) = 15"
    using arg_cong[OF roundLoop_allGames_sides[of ts], of length] by (simp add: rounds_def circle_games)
  have no_dup: "distinct (map matchup (allGames rounds))"
    unfolding rounds_def using len ids by (rule matchups_distinct)
  have once: "\<forall>T \<in> teamsOf rounds. \<forall>U \<in> teamsOf rounds. T \<noteq> U \<longrightarrow>
           length (filter (meets T U) (allGames rounds)) = 1"
  proof (intro ballI impI)
    fix T U assume "T \<in> teamsOf rounds" "U \<in> teamsOf rounds" "T \<noteq> U"
    then obtain i j where ij: "i < 6" "j < 6" "T = teamId (ts ! i)" "U = teamId (ts ! j)" "i \<noteq> j"
      using team_nth by metis
    have "length (filter (meets T U) (allGames rounds)) = length (filter (slotMeets i j) (concat circle))"
      unfolding rounds_def
    proof (rule length_filter_related[OF roundLoop_allGames_sides])
      fix g m assume "m \<in> set (concat circle)" "sides g = slotTeams ts m"
      then show "meets T U g = slotMeets i j m"
        using meets_slots[OF ids, of i j m g] slots[of m] ij len by simp
    qed
    also have "\<dots> = 1" using ij by (simp add: circle_meets)
    finally show "length (filter (meets T U) (allGames rounds)) = 1" .
  qed
  have five: "\<forall>T \<in> teamsOf rounds. length (filter (teamPlays T) (allGames rounds)) = 5"
  proof
    fix T assume "T \<in> teamsOf rounds"
    then obtain i where i: "i < 6" "T = teamId (ts ! i)" using team_nth by metis
    have "length (filter (teamPlays T) (allGames rounds)) = length (filter (slotTeamPlays i) (concat circle))"
      unfolding rounds_def
    proof (rule length_filter_related[OF roundLoop_allGames_sides])
      fix g m assume "m \<in> set (concat circle)" "sides g = slotTeams ts m"
      then show "teamPlays T g = slotTeamPlays i m"
        using teamPlays_slots[OF ids, of i m g] slots[of m] i len by simp
    qed
    also have "\<dots> = 5" using i by (simp add: circle_plays)
    finally show "length (filter (teamPlays T) (allGames rounds)) = 5" .
  qed
  have per_round: "\<forall>T \<in> teamsOf rounds. \<forall>r \<in> set rounds. length (filter (teamPlays T) (games r)) = 1"
  proof (intro ballI)
    fix T r assume "T \<in> teamsOf rounds" and r: "r \<in> set rounds"
    then obtain i where i: "i < 6" "T = teamId (ts ! i)" using team_nth by metis
    from r obtain rg where rg: "rg \<in> set circle" "map sides (games r) = map (slotTeams ts) rg"
      unfolding rounds_def using round_teams by blast
    have "length (filter (teamPlays T) (games r)) = length (filter (slotTeamPlays i) rg)"
    proof (rule length_filter_related[OF rg(2)])
      fix g m assume "m \<in> set rg" "sides g = slotTeams ts m"
      moreover from this rg(1) have "m \<in> set (concat circle)" by auto
      ultimately show "teamPlays T g = slotTeamPlays i m"
        using teamPlays_slots[OF ids, of i m g] slots[of m] i len by simp
    qed
    also have "\<dots> = 1" using i rg(1) by (simp add: circle_round)
    finally show "length (filter (teamPlays T) (games r)) = 1" .
  qed
  from n_rounds n_games six once total no_dup five per_round show ?thesis by blast
qed

lemma chooseTeams_partition:
  assumes len: "length players = 12" and dist: "distinct players"
    and rand: "\<forall>k. 0 \<le> rand k \<and> rand k < 1"
    and custom: "\<forall>ts. customTeams = Some ts \<and> length ts = 6 \<longrightarrow> mset (members ts) = mset players"
  shows "length (chooseTeams rand players customTeams) = 6
       \<and> distinct (members (chooseTeams rand players customTeams))"
proof -
  define sp where "sp = shuffleArray rand players"
  have ms: "mset sp = mset players" unfolding sp_def by (rule shuffleArray_mset[OF rand])
  have sp_len: "length sp = 12" using ms len by (metis mset_eq_length)
  have sp_dist: "distinct sp" using ms dist by (metis mset_eq_imp_distinct_iff)
  have random: "length (pairLoop sp 0 []) = 6 \<and> distinct (members (pairLoop sp 0 []))"
    using members_pairLoop[OF sp_len] sp_dist pairLoop_length by simp
  show ?thesis
  proof (cases customTeams)
    case None
    then show ?thesis using random by (simp add: chooseTeams_def sp_def)
  next
    case (Some ts)
    show ?thesis
    proof (cases "length ts = 6")
      case True
      with Some custom have "mset (members ts) = mset players" by simp
      then have "distinct (members ts)" using dist by (metis mset_eq_imp_distinct_iff)
      with True Some show ?thesis by (simp add: chooseTeams_def)
    next
      case False
      with Some show ?thesis using random by (simp add: chooseTeams_def sp_def)
    qed
  qed
qed

text \<open>
  Claim C3. For every list of 12 distinct players, whether the teams come from a
  caller-supplied partition into 6 teams or from the shuffle, \<open>generate12PlayerSchedule\<close>
  returns 5 rounds of 3 games in which exactly 6 teams appear; every two different teams
  meet in exactly one game, the 15 matchups being pairwise different; every team plays 5
  games, exactly one in every round.
\<close>

theorem generate12PlayerSchedule_round_robin:
  assumes len: "length players = 12" and dist: "distinct players"
    and rand: "\<forall>k. 0 \<le> rand k \<and> rand k < 1"
    and custom: "\<forall>ts. customTeams = Some ts \<and> length ts = 6 \<longrightarrow> mset (members ts) = mset players"
  shows "\<exists>rounds. generate12PlayerSchedule rand players customTeams = Inr rounds
     \<and> length rounds = 5
     \<and> (\<forall>r \<in> set rounds. length (games r) = 3)
     \<and> card (teamsOf rounds) = 6
     \<and> (\<forall>T \<in> teamsOf rounds. \<forall>U \<in> teamsOf rounds. T \<noteq> U \<longrightarrow>
           length (filter (meets T U) (allGames rounds)) = 1)
     \<and> length (allGames rounds) = 15
     \<and> distinct (map matchup (allGames rounds))
     \<and> (\<forall>T \<in> teamsOf rounds. length (filter (teamPlays T) (allGames rounds)) = 5)
     \<and> (\<forall>T \<in> teamsOf rounds. \<forall>r \<in> set rounds. length (filter (teamPlays T) (games r)) = 1)"
proof -
  have res: "generate12PlayerSchedule rand players customTeams
      = Inr (roundLoop (chooseTeams rand players customTeams) 0 [1, 2, 3, 4, 5] 1 [])"
    by (simp add: generate12PlayerSchedule_def len)
  from chooseTeams_partition[OF assms]
  have "length (chooseTeams rand players customTeams) = 6"
    and "distinct (members (chooseTeams rand players customTeams))" by simp_all
  from roundLoop_properties[OF this] res show ?thesis by blast
qed

theorem generate12PlayerSchedule_round_robin_witness:
  "length [''A'', ''B'', ''C'', ''D'', ''E'', ''F'', ''G'', ''H'', ''I'', ''J'', ''K'', ''L''] = 12
   \<and> distinct [''A'', ''B'', ''C'', ''D'', ''E'', ''F'', ''G'', ''H'', ''I'', ''J'', ''K'', ''L'']
   \<and> (\<forall>k::nat. (0::real) \<le> 0 \<and> (0::real) < 1)
   \<and> length [(''A'', ''B''), (''C'', ''D''), (''E'', ''F''), (''G'', ''H''), (''I'', ''J''), (''K'', ''L'')] = 6
   \<and> mset (members [(''A'', ''B''), (''C'', ''D''), (''E'', ''F''), (''G'', ''H''), (''I'', ''J''), (''K'', ''L'')])
       = mset [''A'', ''B'', ''C'', ''D'', ''E'', ''F'', ''G'', ''H'', ''I'', ''J'', ''K'', ''L'']
   \<and> (\<exists>rounds. generate12PlayerSchedule (\<lambda>k. 0) [''A'', ''B'', ''C'', ''D'', ''E'', ''F'', ''G'', ''H'', ''I'', ''J'', ''K'', ''L'']
          (Some [(''A'', ''B''), (''C'', ''D''), (''E'', ''F''), (''G'', ''H''), (''I'', ''J''), (''K'', ''L'')]) = Inr rounds
     \<and> length rounds = 5
     \<and> (\<forall>r \<in> set rounds. length (games r) = 3)
     \<and> card (teamsOf rounds) = 6
     \<and> (\<forall>T \<in> teamsOf rounds. \<forall>U \<in> teamsOf rounds. T \<noteq> U \<longrightarrow>
           length (filter (meets T U) (allGames rounds)) = 1)
     \<and> length (allGames rounds) = 15
     \<and> distinct (map matchup (allGames rounds))
     \<and> (\<forall>T \<in> teamsOf rounds. length (filter (teamPlays T) (allGames rounds)) = 5)
     \<and> (\<forall>T \<in> teamsOf rounds. \<forall>r \<in> set rounds. length (filter (teamPlays T) (games r)) = 1))"
  (is "?len \<and> ?dist \<and> ?rand \<and> ?six \<and> ?custom \<and> ?concl")
proof -
  have len: ?len by simp
  have dist: ?dist by simp
  have rand: ?rand by simp
  have six: ?six by simp
  have custom: ?custom by (simp add: members_Cons members_Nil)
  have ?concl by (rule generate12PlayerSchedule_round_robin) (simp_all add: members_Cons members_Nil)
  with len dist rand six custom show ?thesis by blast
qed

section \<open>Player-count errors and malformed custom teams\<close>

text \<open>
  Claim C5. \<open>generateRoundRobinSchedule\<close> throws its error (the \<open>InvalidPlayerCount\<close>
  condition of the specification) exactly when the list does not have 8 entries and returns
  a schedule exactly when it has; likewise \<open>generate12PlayerSchedule\<close> with 12, whatever the
  custom teams are.
\<close>

theorem generators_InvalidPlayerCount:
  "(generateRoundRobinSchedule rand players = Inl (Error ''Exactly 8 players are required''))
      = (length players \<noteq> 8)
   \<and> (\<exists>rounds. generateRoundRobinSchedule rand players = Inr rounds) = (length players = 8)
   \<and> (generate12PlayerSchedule rand players customTeams = Inl (Error ''Exactly 12 players are required''))
      = (length players \<noteq> 12)
   \<and> (\<exists>rounds. generate12PlayerSchedule rand players customTeams = Inr rounds) = (length players = 12)"
  by (simp add: generateRoundRobinSchedule_def generate12PlayerSchedule_def)

text \<open>
  Claim C10. A \<open>customTeams\<close> argument whose length is not 6 is ignored: with 12 players the
  generator returns, without an error, what it returns without custom teams, namely the
  circle schedule of the six consecutive pairs of the shuffled player list.
\<close>

theorem generate12PlayerSchedule_ignores_malformed_customTeams:
  assumes "length players = 12" and "length ts \<noteq> 6" and "\<forall>k. 0 \<le> rand k \<and> rand k < 1"
  shows "generate12PlayerSchedule rand players (Some ts) = generate12PlayerSchedule rand players None
     \<and> (\<exists>shuffled. shuffled = shuffleArray rand players \<and> mset shuffled = mset players
          \<and> generate12PlayerSchedule rand players (Some ts)
            = Inr (roundLoop [(shuffled ! 0, shuffled ! 1), (shuffled ! 2, shuffled ! 3),
                              (shuffled ! 4, shuffled ! 5), (shuffled ! 6, shuffled ! 7),
                              (shuffled ! 8, shuffled ! 9), (shuffled ! 10, shuffled ! 11)]
                     0 [1, 2, 3, 4, 5] 1 []))"
proof -
  have "pairLoop (shuffleArray rand players) 0 [] =
      [(shuffleArray rand players ! 0, shuffleArray rand players ! 1),
       (shuffleArray rand players ! 2, shuffleArray rand players ! 3),
       (shuffleArray rand players ! 4, shuffleArray rand players ! 5),
       (shuffleArray rand players ! 6, shuffleArray rand players ! 7),
       (shuffleArray rand players ! 8, shuffleArray rand players ! 9),
       (shuffleArray rand players ! 10, shuffleArray rand players ! 11)]"
    by (simp add: pairLoop.simps eval_nat_numeral)
  then show ?thesis
    using assms shuffleArray_mset[OF assms(3), of players]
    by (simp add: generate12PlayerSchedule_def chooseTeams_def)
qed

theorem generate12PlayerSchedule_ignores_malformed_customTeams_witness:
  "length [''A'', ''B'', ''C'', ''D'', ''E'', ''F'', ''G'', ''H'', ''I'', ''J'', ''K'', ''L''] = 12
   \<and> length [(''A'', ''B''), (''C'', ''D'')] \<noteq> 6
   \<and> (\<forall>k::nat. (0::real) \<le> 0 \<and> (0::real) < 1)
   \<and> generate12PlayerSchedule (\<lambda>k. 0) [''A'', ''B'', ''C'', ''D'', ''E'', ''F'', ''G'', ''H'', ''I'', ''J'', ''K'', ''L'']
        (Some [(''A'', ''B''), (''C'', ''D'')])
      = generate12PlayerSchedule (\<lambda>k. 0) [''A'', ''B'', ''C'', ''D'', ''E'', ''F'', ''G'', ''H'', ''I'', ''J'', ''K'', ''L''] None"
  using generate12PlayerSchedule_ignores_malformed_customTeams
    [of "[''A'', ''B'', ''C'', ''D'', ''E'', ''F'', ''G'', ''H'', ''I'', ''J'', ''K'', ''L'']"
        "[(''A'', ''B''), (''C'', ''D'')]" "\<lambda>k. 0"]
  by simp

section \<open>Dictionaries\<close>

lemma map_entry_keys: "map fst (AList.map_entry k f m) = map fst m"
  by (induction m) auto

lemma map_of_None_keys: "(map_of m k = None) = (k \<notin> set (map fst m))"
  by (simp add: map_of_eq_None_iff)

lemma removeAll_swap: "removeAll a (removeAll b xs) = removeAll b (removeAll a xs)"
  by (induction xs) auto

lemma removeAll_twice: "removeAll a (removeAll a xs) = removeAll a xs"
  by (induction xs) auto

lemma firsts_removeAll: "removeAll k (firsts (as @ k # bs)) = removeAll k (firsts (as @ bs))"
proof (induction as)
  case Nil
  then show ?case by (simp add: removeAll_twice)
next
  case (Cons a as)
  show ?case
  proof (cases "k = a")
    case True
    with Cons show ?thesis by (simp add: removeAll_twice)
  next
    case False
    have "removeAll k (removeAll a (firsts (as @ k # bs))) = removeAll a (removeAll k (firsts (as @ k # bs)))"
      by (rule removeAll_swap)
    also have "\<dots> = removeAll a (removeAll k (firsts (as @ bs)))" by (simp only: Cons.IH)
    also have "\<dots> = removeAll k (removeAll a (firsts (as @ bs)))" by (rule removeAll_swap)
    finally show ?thesis using False by simp
  qed
qed

lemma firsts_seen: "k \<in> set xs \<Longrightarrow> firsts (xs @ k # ks) = firsts (xs @ ks)"
proof (induction xs)
  case Nil
  then show ?case by simp
next
  case (Cons x xs)
  show ?case
  proof (cases "x = k")
    case True
    then show ?thesis using firsts_removeAll[of k xs ks] by simp
  next
    case False
    with Cons show ?thesis by simp
  qed
qed

lemma set_firsts: "set (firsts xs) = set xs"
  by (induction xs) auto

lemma distinct_firsts: "distinct (firsts xs)"
  by (induction xs) (auto simp: distinct_removeAll)

lemma firsts_distinct: "distinct xs \<Longrightarrow> firsts xs = xs"
  by (induction xs) (auto simp: set_firsts)

lemma fold_keys:
  assumes step: "\<And>e m. map fst (f e m) = (if key e \<in> set (map fst m) then map fst m else map fst m @ [key e])"
  shows "distinct (map fst m) \<Longrightarrow> map fst (fold f es m) = firsts (map fst m @ map key es)"
proof (induction es arbitrary: m)
  case Nil
  then show ?case by (simp add: firsts_distinct)
next
  case (Cons e es)
  have d: "distinct (map fst (f e m))" using Cons.prems by (simp add: step)
  show ?case
  proof (cases "key e \<in> set (map fst m)")
    case True
    then have "firsts (map fst m @ key e # map key es) = firsts (map fst m @ map key es)"
      by (rule firsts_seen)
    with Cons.IH[OF d] True show ?thesis by (simp add: step)
  next
    case False
    with Cons.IH[OF d] show ?thesis by (simp add: step)
  qed
qed

section \<open>Inherited property names\<close>

lemma inherited_proto: "inherited ''__proto__''"
  by (simp add: inherited_def inheritedNames_def)

lemma forEach_append:
  "forEach f (xs @ ys) s = (case forEach f xs s of Inl e \<Rightarrow> Inl e | Inr s' \<Rightarrow> forEach f ys s')"
  by (induction xs arbitrary: s) (auto split: sum.splits)

lemma forEach_concat: "forEach (\<lambda>x. forEach f (g x)) xs s = forEach f (concat (map g xs)) s"
  by (induction xs arbitrary: s) (auto simp: forEach_append split: sum.splits)

section \<open>Player statistics\<close>

lemma addTeam2Player_eq: "addTeam2Player s w p m = addTeam1Player s (\<not> w) p m"
  by (simp add: addTeam2Player_def addTeam1Player_def)

lemma addGame_events: "addGame g m = forEach tryEvent (gameEvents g) m"
  by (simp add: addGame_def gameEvents_def tryEvent_def addTeam2Player_eq Let_def
      split: option.splits sum.splits)

lemma fold_concat: "fold (\<lambda>x. fold f (g x)) xs m = fold f (concat (map g xs)) m"
  by (induction xs arbitrary: m) auto

lemma calculatePlayerStats_events:
  "calculatePlayerStats rounds = forEach tryEvent (concat (map gameEvents (allGames rounds))) []"
proof -
  have "calculatePlayerStats rounds = forEach addGame (allGames rounds) []"
    unfolding calculatePlayerStats_def allGames_def by (rule forEach_concat)
  also have "\<dots> = forEach (\<lambda>g. forEach tryEvent (gameEvents g)) (allGames rounds) []"
    by (simp add: addGame_events[abs_def])
  also have "\<dots> = forEach tryEvent (concat (map gameEvents (allGames rounds))) []"
    by (rule forEach_concat)
  finally show ?thesis .
qed

lemma tryEvent_applyEvent:
  "tryEvent e m =
     (if map_of m (fst e) = None \<and> inherited (fst e) then Inl TypeError else Inr (applyEvent e m))"
  by (auto simp: tryEvent_def addTeam1Player_def applyEvent_def bump_def[abs_def] Let_def update_conv')

lemma applyEvent_keys:
  "map fst (applyEvent e m) = (if fst e \<in> set (map fst m) then map fst m else map fst m @ [fst e])"
  by (simp add: applyEvent_def map_entry_keys update_keys map_of_None_keys)

lemma forEach_tryEvent:
  "list_all (\<lambda>k. \<not> inherited k) (map fst m) \<Longrightarrow>
     forEach tryEvent es m =
       (if list_all (\<lambda>e. \<not> inherited (fst e)) es then Inr (fold applyEvent es m) else Inl TypeError)"
proof (induction es arbitrary: m)
  case Nil
  then show ?case by simp
next
  case (Cons e es)
  show ?case
  proof (cases "inherited (fst e)")
    case True
    with Cons.prems have "map_of m (fst e) = None"
      by (auto simp: map_of_None_keys list_all_iff)
    with True show ?thesis by (simp add: tryEvent_applyEvent)
  next
    case False
    with Cons.prems have "list_all (\<lambda>k. \<not> inherited k) (map fst (applyEvent e m))"
      by (simp add: applyEvent_keys list_all_iff)
    from Cons.IH[OF this] False show ?thesis by (simp add: tryEvent_applyEvent)
  qed
qed

lemma applyEvent_lookup:
  "map_of (applyEvent e m) q =
     (if q = fst e
      then Some (bump (fst (snd e)) (snd (snd e)) (case map_of m q of None \<Rightarrow> newPlayerStats | Some s \<Rightarrow> s))
      else map_of m q)"
  by (auto simp: applyEvent_def map_of_map_entry update_conv' split: option.splits)

lemma fold_applyEvent_lookup:
  "map_of (fold applyEvent es m) q =
     (if filter (\<lambda>e. fst e = q) es = [] then map_of m q
      else Some (fold (\<lambda>e. bump (fst (snd e)) (snd (snd e))) (filter (\<lambda>e. fst e = q) es)
                  (case map_of m q of None \<Rightarrow> newPlayerStats | Some s \<Rightarrow> s)))"
proof (induction es arbitrary: m)
  case Nil
  then show ?case by simp
next
  case (Cons e es)
  show ?case
    by (simp add: Cons.IH applyEvent_lookup)
qed

lemma pointsLost_fold_bump:
  "pointsLost (fold (\<lambda>e. bump (fst (snd e)) (snd (snd e))) es s)
     = pointsLost s + (\<Sum>e\<leftarrow>es. MAX_POINTS_PER_GAME - fst (snd e))"
  by (induction es arbitrary: s) (simp_all add: bump_def)

lemma gameEvents_sideScores: "map (\<lambda>e. (fst e, fst (snd e))) (gameEvents g) = sideScores g"
  by (simp add: gameEvents_def sideScores_def split: option.splits)

lemma events_sideScores:
  "map (\<lambda>e. (fst e, fst (snd e))) (concat (map gameEvents gs)) = concat (map sideScores gs)"
  by (induction gs) (simp_all add: gameEvents_sideScores)

lemma events_players:
  "map fst (concat (map gameEvents gs)) = map fst (concat (map sideScores gs))"
  unfolding events_sideScores[symmetric] by (simp add: comp_def)

lemma events_scoresOf:
  "map (\<lambda>e. fst (snd e)) (filter (\<lambda>e. fst e = p) (concat (map gameEvents (allGames rounds)))) = scoresOf p rounds"
proof -
  have "scoresOf p rounds = map snd (filter (\<lambda>e. fst e = p)
          (map (\<lambda>e. (fst e, fst (snd e))) (concat (map gameEvents (allGames rounds)))))"
    by (simp add: scoresOf_def events_sideScores)
  also have "\<dots> = map (\<lambda>e. fst (snd e)) (filter (\<lambda>e. fst e = p) (concat (map gameEvents (allGames rounds))))"
    by (simp add: filter_map comp_def)
  finally show ?thesis by simp
qed

lemma statsOf_lookup:
  "map_of (statsOf rounds) p =
     (if scoresOf p rounds = [] then None
      else Some (fold (\<lambda>e. bump (fst (snd e)) (snd (snd e)))
                  (filter (\<lambda>e. fst e = p) (concat (map gameEvents (allGames rounds)))) newPlayerStats))"
  unfolding statsOf_def fold_applyEvent_lookup events_scoresOf[symmetric]
  by simp

lemma statsOf_keys: "map fst (statsOf rounds) = encounterOrder rounds"
  unfolding statsOf_def encounterOrder_def
  using fold_keys[of applyEvent fst "[]", OF applyEvent_keys] by (simp add: events_players)

lemma statsOf_distinct: "distinct (map fst (statsOf rounds))"
  by (simp add: statsOf_keys encounterOrder_def distinct_firsts)

text \<open>
  The call returns exactly on the schedules in which no player of a scored game bears an
  inherited name, and then the statistics are those of the events in order; on every
  other schedule it throws a \<open>TypeError\<close>.
\<close>

lemma calculatePlayerStats_plain:
  "calculatePlayerStats rounds = (if plainSchedule rounds then Inr (statsOf rounds) else Inl TypeError)"
proof -
  let ?es = "concat (map gameEvents (allGames rounds))"
  have "list_all (\<lambda>e. \<not> inherited (fst e)) ?es = list_all (\<lambda>p. \<not> inherited p) (map fst ?es)"
    by (simp add: list_all_iff)
  also have "\<dots> = plainSchedule rounds"
    by (simp add: plainSchedule_def encounterOrder_def events_players list_all_iff set_firsts)
  finally have "list_all (\<lambda>e. \<not> inherited (fst e)) ?es = plainSchedule rounds" .
  then show ?thesis
    unfolding calculatePlayerStats_events statsOf_def
    using forEach_tryEvent[of "[]" ?es] by simp
qed

lemma calculatePlayerStats_returns:
  "(\<exists>stats. calculatePlayerStats rounds = Inr stats) = plainSchedule rounds"
  by (simp add: calculatePlayerStats_plain)

text \<open>
  Claim C1 (not met by the code). On a tied game \<open>team1Won\<close> is false, so the branch
  \<open>else losses++\<close> runs for the players of team 1 and the branch \<open>if (!team1Won) wins++\<close>
  for the players of team 2: at 21 to 21 the code records a loss for ''A'' and ''B'' and a
  win for ''C'' and ''D'', where the claim has neither.
\<close>

theorem calculatePlayerStats_tie:
  "calculatePlayerStats tieRound = Inr
     [(''A'', \<lparr>totalPoints = 21, pointsLost = 0, gamesPlayed = 1, wins = 0, losses = 1, gameScores = [21]\<rparr>),
      (''B'', \<lparr>totalPoints = 21, pointsLost = 0, gamesPlayed = 1, wins = 0, losses = 1, gameScores = [21]\<rparr>),
      (''C'', \<lparr>totalPoints = 21, pointsLost = 0, gamesPlayed = 1, wins = 1, losses = 0, gameScores = [21]\<rparr>),
      (''D'', \<lparr>totalPoints = 21, pointsLost = 0, gamesPlayed = 1, wins = 1, losses = 0, gameScores = [21]\<rparr>)]"
  by (simp add: tieRound_def calculatePlayerStats_def addGame_def addTeam1Player_def
      addTeam2Player_def newPlayerStats_def MAX_POINTS_PER_GAME_def inherited_def inheritedNames_def)

text \<open>
  On the schedules on which the call returns, the \<open>pointsLost\<close> of every player with an
  entry is the sum, over the player's appearances in scored games, of 21 minus the score
  of the player's side; nothing is clamped, so a score above 21 counts negatively.
\<close>

lemma calculatePlayerStats_pointsLost_plain:
  assumes "calculatePlayerStats rounds = Inr stats" and "map_of stats p = Some s"
  shows "pointsLost s = (\<Sum>score\<leftarrow>scoresOf p rounds. 21 - score)"
proof -
  let ?es = "filter (\<lambda>e. fst e = p) (concat (map gameEvents (allGames rounds)))"
  from assms(1) have "stats = statsOf rounds"
    by (simp add: calculatePlayerStats_plain split: if_splits)
  with assms(2) have "map_of (statsOf rounds) p = Some s" by simp
  then have "s = fold (\<lambda>e. bump (fst (snd e)) (snd (snd e))) ?es newPlayerStats"
    unfolding statsOf_lookup by (simp split: if_splits)
  then have "pointsLost s = (\<Sum>e\<leftarrow>?es. MAX_POINTS_PER_GAME - fst (snd e))"
    by (simp add: pointsLost_fold_bump newPlayerStats_def)
  also have "\<dots> = (\<Sum>score\<leftarrow>map (\<lambda>e. fst (snd e)) ?es. 21 - score)"
    by (simp add: comp_def MAX_POINTS_PER_GAME_def)
  finally show ?thesis by (simp only: events_scoresOf)
qed

text \<open>
  Claim C6 (not met by the code). ''constructor'' plays one scored game, at 25 points, so
  the claim has a \<open>pointsLost\<close> of \<open>21 - 25\<close> for this player. In the code
  \<open>stats[''constructor'']\<close> is the inherited function \<open>Object\<close>, so \<open>!stats[player]\<close> is false,
  no entry is created, and \<open>stats[player].gameScores.push\<close> throws: the call returns no
  statistics at all. The grouping of \<open>calculateTeamStats\<close>, a \<open>Map\<close>, has no inherited keys.
\<close>

theorem calculatePlayerStats_pointsLost_inherited:
  "calculatePlayerStats protoRound = Inl TypeError
   \<and> scoresOf ''constructor'' protoRound = [25]
   \<and> scoresOf ''B'' protoRound = [25]
   \<and> inherited ''constructor''"
  by (simp add: protoRound_def calculatePlayerStats_def addGame_def addTeam1Player_def
      addTeam2Player_def inherited_def inheritedNames_def scoresOf_def sideScores_def allGames_def)

lemma gameEvents_unscored: "\<not> scored g \<Longrightarrow> gameEvents g = []"
  by (auto simp: scored_def gameEvents_def split: option.splits)

lemma concat_map_filter:
  "(\<And>x. \<not> P x \<Longrightarrow> f x = []) \<Longrightarrow> concat (map f (filter P xs)) = concat (map f xs)"
  by (induction xs) auto

lemma allGames_onlyScored: "allGames (map onlyScored rounds) = filter scored (allGames rounds)"
  by (induction rounds) (simp_all add: allGames_def onlyScored_def)

lemma scoresOf_appears: "(scoresOf p rounds = []) = (\<not> appearsScored p rounds)"
proof -
  have one: "\<And>g. (filter (\<lambda>e. fst e = p) (sideScores g) = []) = (\<not> (scored g \<and> playsIn p g))"
    by (auto simp: sideScores_def scored_def playsIn_def split: option.splits)
  have "(scoresOf p rounds = []) = (\<forall>g \<in> set (allGames rounds). filter (\<lambda>e. fst e = p) (sideScores g) = [])"
    unfolding scoresOf_def by (induction "allGames rounds") (auto simp: filter_empty_conv)
  then show ?thesis unfolding appearsScored_def one by (simp add: list_ex_iff)
qed

text \<open>
  Dropping the games that lack a score leaves the outcome of the call unchanged, the
  statistics or the exception; and in the statistics that a call returns, a player has no
  entry exactly when the player appears in no scored game.
\<close>

lemma calculatePlayerStats_unscored_plain:
  "calculatePlayerStats rounds = calculatePlayerStats (map onlyScored rounds)
   \<and> (calculatePlayerStats rounds = Inr stats
        \<longrightarrow> (map_of stats p = None) = (\<not> appearsScored p rounds))"
proof -
  have "concat (map gameEvents (allGames (map onlyScored rounds))) = concat (map gameEvents (allGames rounds))"
    unfolding allGames_onlyScored using gameEvents_unscored by (rule concat_map_filter)
  then have "calculatePlayerStats rounds = calculatePlayerStats (map onlyScored rounds)"
    by (simp only: calculatePlayerStats_events)
  moreover have "(map_of (statsOf rounds) p = None) = (\<not> appearsScored p rounds)"
    unfolding statsOf_lookup scoresOf_appears[symmetric] by simp
  ultimately show ?thesis by (auto simp: calculatePlayerStats_plain split: if_splits)
qed


section \<open>Side bets\<close>

lemma numDict_lookup: "map_of (numDict m) q = map_option Num (map_of m q)"
  by (induction m) (simp_all add: numDict_def)

lemma numDict_update: "AList.update q (Num x) (numDict m) = numDict (AList.update q x m)"
  by (induction m) (simp_all add: numDict_def)

lemma gain_addDelta: "\<not> inherited q \<Longrightarrow> gain stake q (numDict m) = numDict (addDelta (q, stake) m)"
  using inherited_proto
  by (auto simp: gain_def setProp_def getProp_def orZero_def plus_def addDelta_def numDict_lookup
      numDict_update split: option.splits)

lemma lose_addDelta: "\<not> inherited q \<Longrightarrow> lose stake q (numDict m) = numDict (addDelta (q, - stake) m)"
  using inherited_proto
  by (auto simp: lose_def setProp_def getProp_def orZero_def minus_def addDelta_def numDict_lookup
      numDict_update split: option.splits)

lemma settleBet_events:
  "list_all (\<lambda>p. \<not> inherited p) (winners b @ losers b) \<Longrightarrow>
     settleBet b (numDict m) = numDict (fold addDelta (betEvents b) m)"
  by (simp add: settleBet_def betEvents_def winners_def losers_def gain_addDelta lose_addDelta
      split: option.splits side.splits)

lemma fold_settleBet_events:
  "plainBets bets \<Longrightarrow>
     fold settleBet bets (numDict m) = numDict (fold addDelta (concat (map betEvents bets)) m)"
  by (induction bets arbitrary: m) (simp_all add: plainBets_def settleBet_events)

lemma calculateSideBetTotals_events:
  "plainBets bets \<Longrightarrow>
     calculateSideBetTotals bets = numDict (fold addDelta (concat (map betEvents bets)) [])"
  using fold_settleBet_events[of bets "[]"] by (simp add: calculateSideBetTotals_def numDict_def)

lemma addDelta_lookup:
  "map_of (addDelta e m) q =
     (if q = fst e then Some ((case map_of m q of None \<Rightarrow> 0 | Some t \<Rightarrow> t) + snd e)
      else map_of m q)"
  by (simp add: addDelta_def update_conv')

lemma fold_addDelta_lookup:
  "map_of (fold addDelta es m) q =
     (if filter (\<lambda>e. fst e = q) es = [] then map_of m q
      else Some ((case map_of m q of None \<Rightarrow> 0 | Some t \<Rightarrow> t)
                 + sum_list (map snd (filter (\<lambda>e. fst e = q) es))))"
proof (induction es arbitrary: m)
  case Nil
  then show ?case by simp
next
  case (Cons e es)
  show ?case
    by (simp add: Cons.IH addDelta_lookup split: option.splits)
qed

lemma sum_constant_events:
  "sum_list (map snd (filter (\<lambda>e. fst e = q) (map (\<lambda>x. (x, c)) xs))) = c * int (count_list xs q)"
  by (induction xs) (simp_all add: algebra_simps)

lemma betEvents_sum:
  "sum_list (map snd (filter (\<lambda>e. fst e = q) (betEvents b))) = betDelta q b"
  unfolding betEvents_def betDelta_def
  by (simp add: sum_constant_events)

lemma betEvents_none:
  "(filter (\<lambda>e. fst e = q) (betEvents b) = []) = (q \<notin> set (winners b @ losers b))"
  unfolding betEvents_def by (auto simp: filter_empty_conv)

lemma events_sum:
  "sum_list (map snd (filter (\<lambda>e. fst e = q) (concat (map betEvents bets)))) = (\<Sum>b\<leftarrow>bets. betDelta q b)"
  by (induction bets) (simp_all add: betEvents_sum)

lemma events_none:
  "(filter (\<lambda>e. fst e = q) (concat (map betEvents bets)) = []) = (\<not> inSettledBet q bets)"
  unfolding inSettledBet_def
  by (induction bets) (simp_all add: betEvents_none)

lemma settleBet_unsettled: "\<not> settled b \<Longrightarrow> settleBet b totals = totals"
  by (simp add: settled_def settleBet_def)

lemma fold_settleBet_settled: "fold settleBet (filter settled bets) totals = fold settleBet bets totals"
  by (induction bets arbitrary: totals) (simp_all add: settleBet_unsettled)

text \<open>
  When no player of a settled bet bears an inherited name, the total of a player who is on
  a side of some settled bet is the number that is the sum over all bets of \<open>betDelta\<close>:
  plus the stake where the player is on the winning side, minus the stake where the
  player is on the losing side, nothing for an unsettled bet; a player in no settled bet
  has no total. Removing the unsettled bets never changes the totals.
\<close>

lemma calculateSideBetTotals_plain:
  assumes "plainBets sideBets"
  shows "map_of (calculateSideBetTotals sideBets) p
     = (if inSettledBet p sideBets then Some (Num (\<Sum>b\<leftarrow>sideBets. betDelta p b)) else None)"
  unfolding calculateSideBetTotals_events[OF assms] numDict_lookup fold_addDelta_lookup events_sum
    events_none
  by simp

lemma calculateSideBetTotals_settled:
  "calculateSideBetTotals sideBets = calculateSideBetTotals (filter settled sideBets)"
  by (simp add: calculateSideBetTotals_def fold_settleBet_settled)

text \<open>
  Claim C8 (not met by the code). ''constructor'' is on the winning side of one settled bet
  of stake 5, so the claim has a total of 5. In the code \<open>totals[''constructor'']\<close> is the
  inherited function \<open>Object\<close>, which is truthy, so \<open>(totals[player] || 0) + 5\<close> is the text
  of the function followed by \<open>5\<close>, and this string is stored as the total. The other three
  players get their numbers.
\<close>

theorem calculateSideBetTotals_inherited:
  "calculateSideBetTotals protoBets
     = [(''constructor'', Text), (''B'', Num 5), (''C'', Num (- 5)), (''D'', Num (- 5))]
   \<and> betDelta ''constructor'' (hd protoBets) = 5
   \<and> inherited ''constructor''"
  by (simp add: protoBets_def calculateSideBetTotals_def settleBet_def gain_def lose_def
      setProp_def getProp_def orZero_def plus_def minus_def inherited_def inheritedNames_def
      betDelta_def winners_def losers_def)

section \<open>Sorting\<close>

lemma insertSorted_insort_key:
  assumes "\<And>a b. (compareFn a b \<le> 0) = (key a \<le> key b)"
  shows "insertSorted compareFn x ys = insort_key key x ys"
  by (induction ys) (simp_all add: assms)

lemma sortArray_sort_key:
  assumes "\<And>a b. (compareFn a b \<le> 0) = (key a \<le> key b)"
  shows "sortArray compareFn xs = sort_key key xs"
  unfolding sortArray_def sort_key_def
  by (induction xs) (simp_all add: insertSorted_insort_key[of compareFn key, OF assms])

lemma sortedPlayers_sort_key:
  "sortedPlayers stats = sort_key (\<lambda>e. pointsLost (snd e)) (Object_entries stats)"
  unfolding sortedPlayers_def
  by (rule sortArray_sort_key) (simp add: byPointsLost_def)

section \<open>Enumeration order\<close>

lemma Object_entries_mset: "mset (Object_entries obj) = mset obj"
  by (simp add: Object_entries_def)

lemma Object_entries_plain:
  "list_all (\<lambda>e. \<not> isArrayIndex (fst e)) obj \<Longrightarrow> Object_entries obj = obj"
  by (simp add: Object_entries_def list_all_iff filter_empty_conv filter_id_conv)

section \<open>Payouts\<close>

lemma update_new: "k \<notin> fst ` set acc \<Longrightarrow> AList.update k v acc = acc @ [(k, v)]"
  by (induction acc) auto

lemma map_entry_mid:
  "k \<notin> fst ` set pre \<Longrightarrow> AList.map_entry k f (pre @ (k, v) # rest) = pre @ (k, f v) # rest"
  by (induction pre) auto

lemma fold_chargeFee:
  "distinct (map fst acc @ map fst es) \<Longrightarrow> ''__proto__'' \<notin> fst ` set es \<Longrightarrow>
     fold (chargeFee fee) es acc = acc @ map (\<lambda>e. (fst e, - fee)) es"
proof (induction es arbitrary: acc)
  case Nil
  then show ?case by simp
next
  case (Cons e es)
  from Cons.prems have new: "fst e \<notin> fst ` set acc" by auto
  from Cons.prems have "fst e \<noteq> ''__proto__''" by auto
  then have step: "chargeFee fee e acc = AList.update (fst e) (- fee) acc"
    by (simp add: chargeFee_def)
  from Cons.prems have "distinct (map fst (acc @ [(fst e, - fee)]) @ map fst es)" by auto
  moreover from Cons.prems have "''__proto__'' \<notin> fst ` set es" by auto
  ultimately have "fold (chargeFee fee) es (acc @ [(fst e, - fee)])
      = (acc @ [(fst e, - fee)]) @ map (\<lambda>e. (fst e, - fee)) es"
    by (rule Cons.IH)
  then show ?case by (simp add: step update_new[OF new])
qed

lemma prizeAt_prizes: "(if i < length prizes then prizes ! i else 0) = prizeAt i"
proof -
  consider "i = 0" | "i = 1" | "i = 2" | "3 \<le> i" by linarith
  then show ?thesis
    by cases (simp_all add: prizeAt_def prizes_def eval_nat_numeral)
qed

lemma fold_addPrize:
  "distinct (map fst pre @ map fst es) \<Longrightarrow>
     fold addPrize (enumerate n es) (pre @ map (\<lambda>e. (fst e, c)) es)
       = pre @ map (\<lambda>ie. (fst (snd ie), c + prizeAt (fst ie))) (enumerate n es)"
proof (induction es arbitrary: pre n)
  case Nil
  then show ?case by simp
next
  case (Cons e es)
  from Cons.prems have new: "fst e \<notin> fst ` set pre" by auto
  have "addPrize (n, e) (pre @ (fst e, c) # map (\<lambda>e. (fst e, c)) es)
      = (if n < length prizes
         then pre @ (fst e, c + prizes ! n) # map (\<lambda>e. (fst e, c)) es
         else pre @ (fst e, c) # map (\<lambda>e. (fst e, c)) es)"
    by (simp add: addPrize_def map_entry_mid[OF new])
  also have "\<dots> = pre @ (fst e, c + (if n < length prizes then prizes ! n else 0)) # map (\<lambda>e. (fst e, c)) es"
    by simp
  finally have step: "addPrize (n, e) (pre @ (fst e, c) # map (\<lambda>e. (fst e, c)) es)
      = (pre @ [(fst e, c + prizeAt n)]) @ map (\<lambda>e. (fst e, c)) es"
    by (simp only: prizeAt_prizes append_assoc append_Cons append_Nil)
  from Cons.prems have "distinct (map fst (pre @ [(fst e, c + prizeAt n)]) @ map fst es)" by auto
  from Cons.IH[OF this, of "Suc n"] show ?case by (simp add: step)
qed

lemma sortedPlayers_mset: "mset (sortedPlayers stats) = mset stats"
  by (simp add: sortedPlayers_sort_key Object_entries_mset)

lemma sortedPlayers_keys: "mset (map fst (sortedPlayers stats)) = mset (map fst stats)"
  using sortedPlayers_mset by (metis mset_map)

lemma distributePrizes_ranked:
  assumes "distinct (map fst stats)" and "''__proto__'' \<notin> fst ` set stats"
  shows "distributePrizes stats fee
     = map (\<lambda>ie. (fst (snd ie), prizeAt (fst ie) - fee)) (enumerate 0 (sortedPlayers stats))"
proof -
  let ?es = "sortedPlayers stats"
  have "distinct (map fst ?es)"
    using sortedPlayers_keys assms(1) by (metis mset_eq_imp_distinct_iff)
  then have d: "distinct (map fst [] @ map fst ?es)" by simp
  have "set (map fst ?es) = set (map fst stats)"
    using sortedPlayers_keys by (metis mset_eq_setD)
  with assms(2) have np: "''__proto__'' \<notin> fst ` set ?es" by simp
  have "fold (chargeFee fee) ?es [] = [] @ map (\<lambda>e. (fst e, - fee)) ?es"
    by (rule fold_chargeFee[OF d np])
  then have "distributePrizes stats fee = fold addPrize (enumerate 0 ?es) ([] @ map (\<lambda>e. (fst e, - fee)) ?es)"
    by (simp add: distributePrizes_def)
  also have "\<dots> = [] @ map (\<lambda>ie. (fst (snd ie), - fee + prizeAt (fst ie))) (enumerate 0 ?es)"
    by (rule fold_addPrize[OF d])
  finally show ?thesis by (simp add: algebra_simps)
qed

lemma sum_list_zero: "(\<And>x. x \<in> set xs \<Longrightarrow> f x = (0::int)) \<Longrightarrow> sum_list (map f xs) = 0"
  by (induction xs) auto

lemma prizeAt_beyond: "sum_list (map prizeAt [3..<3 + k]) = 0"
  by (rule sum_list_zero) (simp add: prizeAt_def)

lemma prizeAt_sum: "sum_list (map prizeAt [0..<n]) = sum_list (take n [8, 6, 2])"
proof -
  consider "n = 0" | "n = 1" | "n = 2" | k where "n = 3 + k"
    by (metis One_nat_def Suc_1 add.commute add_Suc_right not0_implies_Suc numeral_3_eq_3 plus_nat.add_0)
  then show ?thesis
  proof cases
    case 4
    have "[0..<3 + k] = [0..<3] @ [3..<3 + k]" by (metis le_add1 upt_add_eq_append zero_le)
    moreover have "sum_list (map prizeAt [0..<3]) = 16"
      by (simp add: prizeAt_def eval_nat_numeral)
    moreover have "sum_list (take (3 + k) [8, 6, 2::int]) = 16" by simp
    ultimately show ?thesis using prizeAt_beyond[of k] 4 by simp
  qed (simp_all add: prizeAt_def eval_nat_numeral)
qed

lemma ranked_sum:
  "sum_list (map snd (map (\<lambda>ie. (fst (snd ie), prizeAt (fst ie) - fee)) (enumerate 0 es)))
     = sum_list (take (length es) [8, 6, 2]) - int (length es) * fee"
proof -
  have a: "map snd (map (\<lambda>ie. (fst (snd ie), prizeAt (fst ie) - fee)) (enumerate 0 es))
      = map (\<lambda>i. prizeAt i - fee) (map fst (enumerate 0 es))"
    by (simp only: map_map comp_def snd_conv)
  have b: "map fst (enumerate 0 es) = [0..<length es]"
    by (simp add: map_fst_enumerate)
  have "sum_list (map snd (map (\<lambda>ie. (fst (snd ie), prizeAt (fst ie) - fee)) (enumerate 0 es)))
      = sum_list (map prizeAt [0..<length es]) - sum_list (map (\<lambda>i. fee) [0..<length es])"
    unfolding a b by (rule sum_list_subtractf)
  then show ?thesis by (simp add: prizeAt_sum sum_list_triv)
qed

lemma numberedRound_stats:
  "calculatePlayerStats numberedRound = Inr
   [(''2'', \<lparr>totalPoints = 21, pointsLost = 0, gamesPlayed = 1, wins = 1, losses = 0, gameScores = [21]\<rparr>),
    (''1'', \<lparr>totalPoints = 21, pointsLost = 0, gamesPlayed = 1, wins = 1, losses = 0, gameScores = [21]\<rparr>),
    (''4'', \<lparr>totalPoints = 15, pointsLost = 6, gamesPlayed = 1, wins = 0, losses = 1, gameScores = [15]\<rparr>),
    (''3'', \<lparr>totalPoints = 15, pointsLost = 6, gamesPlayed = 1, wins = 0, losses = 1, gameScores = [15]\<rparr>)]"
  by (simp add: numberedRound_def calculatePlayerStats_def addGame_def addTeam1Player_def
      addTeam2Player_def newPlayerStats_def MAX_POINTS_PER_GAME_def inherited_def inheritedNames_def)

lemma numbered_names:
  "isArrayIndex ''1'' \<and> isArrayIndex ''2'' \<and> isArrayIndex ''3'' \<and> isArrayIndex ''4''
   \<and> indexValue ''1'' = 1 \<and> indexValue ''2'' = 2 \<and> indexValue ''3'' = 3 \<and> indexValue ''4'' = 4"
  by (simp add: isArrayIndex_def isDigit_def indexValue_def)

lemma numberedRound_sorted:
  "sortedPlayers
   [(''2'', \<lparr>totalPoints = 21, pointsLost = 0, gamesPlayed = 1, wins = 1, losses = 0, gameScores = [21]\<rparr>),
    (''1'', \<lparr>totalPoints = 21, pointsLost = 0, gamesPlayed = 1, wins = 1, losses = 0, gameScores = [21]\<rparr>),
    (''4'', \<lparr>totalPoints = 15, pointsLost = 6, gamesPlayed = 1, wins = 0, losses = 1, gameScores = [15]\<rparr>),
    (''3'', \<lparr>totalPoints = 15, pointsLost = 6, gamesPlayed = 1, wins = 0, losses = 1, gameScores = [15]\<rparr>)] =
   [(''1'', \<lparr>totalPoints = 21, pointsLost = 0, gamesPlayed = 1, wins = 1, losses = 0, gameScores = [21]\<rparr>),
    (''2'', \<lparr>totalPoints = 21, pointsLost = 0, gamesPlayed = 1, wins = 1, losses = 0, gameScores = [21]\<rparr>),
    (''3'', \<lparr>totalPoints = 15, pointsLost = 6, gamesPlayed = 1, wins = 0, losses = 1, gameScores = [15]\<rparr>),
    (''4'', \<lparr>totalPoints = 15, pointsLost = 6, gamesPlayed = 1, wins = 0, losses = 1, gameScores = [15]\<rparr>)]"
  by (simp add: sortedPlayers_def Object_entries_def numbered_names sortArray_def byPointsLost_def)

lemma freshRound_stats: "calculatePlayerStats freshRound = Inr []"
  by (simp add: freshRound_def calculatePlayerStats_def addGame_def)

text \<open>
  Claim C4 fails as stated in three places. With no scored game nobody is ranked and the
  payouts are empty, so they sum to 0 and not to \<open>(8 + 6 + 2) - 0\<close>. \<open>Object.entries\<close>
  lists names that are array indices in numeric order: ''2'' and ''1'' are encountered in
  this order, both with the one score 21 and so with \<open>pointsLost\<close> 0, yet ''1'' is ranked
  first. And when a player of a scored game bears an inherited name the statistics throw,
  so there are no payouts.
\<close>

theorem calculatePayouts_counterexample:
  "calculatePlayerStats freshRound = Inr []
   \<and> calculatePayouts freshRound 2 = Inr []
   \<and> sum_list (map snd ([] :: int dict)) \<noteq> (8 + 6 + 2) - int (length (sortedPlayers [])) * 2
   \<and> encounterOrder numberedRound = [''2'', ''1'', ''4'', ''3'']
   \<and> calculatePayouts numberedRound 2 = Inr [(''1'', 6), (''2'', 4), (''3'', 0), (''4'', - 2)]
   \<and> scoresOf ''2'' numberedRound = [21] \<and> scoresOf ''1'' numberedRound = [21]
   \<and> calculatePayouts protoRound 2 = Inl TypeError"
proof -
  have "calculatePayouts freshRound 2 = Inr []"
    by (simp add: calculatePayouts_def freshRound_stats distributePrizes_def sortedPlayers_def
        Object_entries_def sortArray_def enumerate_simps)
  moreover have "sortedPlayers [] = []"
    by (simp add: sortedPlayers_def Object_entries_def sortArray_def)
  moreover have "encounterOrder numberedRound = [''2'', ''1'', ''4'', ''3'']"
    by (simp add: encounterOrder_def numberedRound_def allGames_def sideScores_def)
  moreover have "calculatePayouts numberedRound 2 = Inr [(''1'', 6), (''2'', 4), (''3'', 0), (''4'', - 2)]"
    by (simp add: calculatePayouts_def numberedRound_stats distributePrizes_def numberedRound_sorted
        chargeFee_def addPrize_def prizes_def enumerate_simps)
  moreover have "scoresOf ''2'' numberedRound = [21] \<and> scoresOf ''1'' numberedRound = [21]"
    by (simp add: scoresOf_def numberedRound_def allGames_def sideScores_def)
  moreover have "calculatePayouts protoRound 2 = Inl TypeError"
    by (simp add: calculatePayouts_def calculatePlayerStats_plain plainSchedule_def encounterOrder_def
        protoRound_def allGames_def sideScores_def inherited_def inheritedNames_def)
  ultimately show ?thesis by (simp add: freshRound_stats)
qed

text \<open>
  Claim C4, amended. When no player of a scored game bears an inherited name, the
  statistics and the payouts are returned. The ranking \<open>sortedPlayers\<close> holds exactly the
  entries of the statistics, in ascending order of \<open>pointsLost\<close>, entries with equal
  \<open>pointsLost\<close> in the order in which \<open>Object.entries\<close> lists the statistics; that order is
  the order of the statistics object itself when no name is an array index, and the
  statistics object is in encounter order. The player at index \<open>i\<close> of the ranking nets
  \<open>prizeAt i - entryFee\<close>. The net amounts sum to the prizes of the ranks that exist minus
  one fee per ranked player: to \<open>(8 + 6 + 2) - n * entryFee\<close> from three ranked players on,
  and to 0 with 8 players and a fee of 2.
\<close>

theorem calculatePayouts_ranking:
  assumes "plainSchedule rounds"
  shows "\<exists>stats payouts.
     calculatePlayerStats rounds = Inr stats
   \<and> calculatePayouts rounds entryFee = Inr payouts
   \<and> mset (sortedPlayers stats) = mset stats
   \<and> sorted (map (\<lambda>e. pointsLost (snd e)) (sortedPlayers stats))
   \<and> (\<forall>v. filter (\<lambda>e. pointsLost (snd e) = v) (sortedPlayers stats)
          = filter (\<lambda>e. pointsLost (snd e) = v) (Object_entries stats))
   \<and> (list_all (\<lambda>e. \<not> isArrayIndex (fst e)) stats \<longrightarrow> Object_entries stats = stats)
   \<and> map fst stats = encounterOrder rounds
   \<and> payouts = map (\<lambda>ie. (fst (snd ie), prizeAt (fst ie) - entryFee)) (enumerate 0 (sortedPlayers stats))
   \<and> sum_list (map snd payouts)
        = sum_list (take (length (sortedPlayers stats)) [8, 6, 2]) - int (length (sortedPlayers stats)) * entryFee
   \<and> (3 \<le> length (sortedPlayers stats)
        \<longrightarrow> sum_list (map snd payouts) = (8 + 6 + 2) - int (length (sortedPlayers stats)) * entryFee)
   \<and> (length (sortedPlayers stats) = 8 \<and> entryFee = 2 \<longrightarrow> sum_list (map snd payouts) = 0)"
proof -
  define stats where "stats = statsOf rounds"
  define payouts where "payouts = distributePrizes stats entryFee"
  have st: "calculatePlayerStats rounds = Inr stats"
    using assms by (simp add: calculatePlayerStats_plain stats_def)
  then have pay: "calculatePayouts rounds entryFee = Inr payouts"
    by (simp add: calculatePayouts_def payouts_def)
  have keys: "map fst stats = encounterOrder rounds"
    by (simp add: stats_def statsOf_keys)
  have dist: "distinct (map fst stats)"
    by (simp add: stats_def statsOf_distinct)
  have "\<not> inherited k" if "k \<in> set (map fst stats)" for k
    using assms that unfolding keys plainSchedule_def by (simp add: list_all_iff)
  then have np: "''__proto__'' \<notin> fst ` set stats"
    using inherited_proto by auto
  have ranked: "payouts = map (\<lambda>ie. (fst (snd ie), prizeAt (fst ie) - entryFee)) (enumerate 0 (sortedPlayers stats))"
    unfolding payouts_def by (rule distributePrizes_ranked[OF dist np])
  have sum: "sum_list (map snd payouts)
        = sum_list (take (length (sortedPlayers stats)) [8, 6, 2]) - int (length (sortedPlayers stats)) * entryFee"
    unfolding ranked by (rule ranked_sum)
  have sorted: "sorted (map (\<lambda>e. pointsLost (snd e)) (sortedPlayers stats))"
    unfolding sortedPlayers_sort_key by (rule sorted_sort_key)
  have stable: "\<forall>v. filter (\<lambda>e. pointsLost (snd e) = v) (sortedPlayers stats)
          = filter (\<lambda>e. pointsLost (snd e) = v) (Object_entries stats)"
    unfolding sortedPlayers_sort_key by (simp add: sort_key_stable)
  have plain: "list_all (\<lambda>e. \<not> isArrayIndex (fst e)) stats \<longrightarrow> Object_entries stats = stats"
    using Object_entries_plain by blast
  have three: "3 \<le> length (sortedPlayers stats)
        \<longrightarrow> sum_list (map snd payouts) = (8 + 6 + 2) - int (length (sortedPlayers stats)) * entryFee"
    by (simp add: sum)
  have eight: "length (sortedPlayers stats) = 8 \<and> entryFee = 2 \<longrightarrow> sum_list (map snd payouts) = 0"
    by (simp add: sum)
  from st pay sortedPlayers_mset[of stats] sorted stable plain keys ranked sum three eight
  show ?thesis by blast
qed

lemma fullRound_plain: "plainSchedule fullRound"
  by (simp add: plainSchedule_def encounterOrder_def fullRound_def allGames_def sideScores_def
      inherited_def inheritedNames_def)

lemma fullRound_payouts:
  "calculatePayouts fullRound 2
     = Inr [(''Alice'', 6), (''Bob'', 4), (''Eve'', 0), (''Frank'', - 2), (''Grace'', - 2),
            (''Henry'', - 2), (''Charlie'', - 2), (''David'', - 2)]"
  by code_simp

theorem calculatePayouts_ranking_witness:
  "plainSchedule fullRound
   \<and> calculatePayouts fullRound 2
       = Inr [(''Alice'', 6), (''Bob'', 4), (''Eve'', 0), (''Frank'', - 2), (''Grace'', - 2),
              (''Henry'', - 2), (''Charlie'', - 2), (''David'', - 2)]
   \<and> (\<exists>stats payouts. calculatePlayerStats fullRound = Inr stats
        \<and> calculatePayouts fullRound 2 = Inr payouts
        \<and> map fst stats = encounterOrder fullRound
        \<and> length (sortedPlayers stats) = 8
        \<and> sum_list (map snd payouts) = 0)"
proof -
  from calculatePayouts_ranking[OF fullRound_plain, of 2]
  obtain stats payouts where h: "calculatePlayerStats fullRound = Inr stats"
      "calculatePayouts fullRound 2 = Inr payouts"
      "map fst stats = encounterOrder fullRound"
      "mset (sortedPlayers stats) = mset stats"
      "length (sortedPlayers stats) = 8 \<and> (2::int) = 2 \<longrightarrow> sum_list (map snd payouts) = 0"
    by blast
  have "length (encounterOrder fullRound) = 8"
    by (simp add: encounterOrder_def fullRound_def allGames_def sideScores_def)
  with h(3) have "length stats = 8" by (metis length_map)
  with h(4) have n: "length (sortedPlayers stats) = 8" by (metis size_mset)
  with h(5) have "sum_list (map snd payouts) = 0" by simp
  with h n fullRound_plain fullRound_payouts show ?thesis by blast
qed

section \<open>Team statistics\<close>

lemma fold_addKey: "distinct ks \<Longrightarrow> fold addKey new ks = firsts (ks @ new)"
proof (induction new arbitrary: ks)
  case Nil
  then show ?case by (simp add: firsts_distinct)
next
  case (Cons k new)
  show ?case
  proof (cases "k \<in> set ks")
    case True
    with Cons show ?thesis by (simp add: addKey_def firsts_seen)
  next
    case False
    with Cons.prems have "distinct (ks @ [k])" by simp
    from Cons.IH[OF this] False show ?thesis by (simp add: addKey_def)
  qed
qed

lemma initTeam_keys: "map fst (initTeam k team m) = addKey k (map fst m)"
  by (simp add: initTeam_def addKey_def update_keys map_of_None_keys)

lemma addTeamGame_keys: "map fst (addTeamGame g m) = fold addKey (teamKeysOf g) (map fst m)"
  by (simp add: addTeamGame_def teamKeysOf_def scored_def Let_def map_entry_keys initTeam_keys
      split: option.splits)

lemma fold_addTeamGame_keys:
  "map fst (fold addTeamGame gs m) = fold addKey (concat (map teamKeysOf gs)) (map fst m)"
  by (induction gs arbitrary: m) (simp_all add: addTeamGame_keys)

lemma teamMapOf_games: "teamMapOf rounds = fold addTeamGame (allGames rounds) []"
  unfolding teamMapOf_def allGames_def by (rule fold_concat)

lemma teamMapOf_keys: "map fst (teamMapOf rounds) = teamEncounterOrder rounds"
  by (simp add: teamMapOf_games fold_addTeamGame_keys fold_addKey teamEncounterOrder_def)

lemma teamMapOf_distinct: "distinct (map fst (teamMapOf rounds))"
  by (simp add: teamMapOf_keys teamEncounterOrder_def distinct_firsts)

lemma addTeamGame_inv:
  assumes "\<And>q t. map_of m q = Some t \<Longrightarrow> teamInv q t"
    and "map_of (addTeamGame g m) q = Some t"
  shows "teamInv q t"
proof (cases "scored g")
  case False
  then have "addTeamGame g m = m"
    by (auto simp: addTeamGame_def scored_def split: option.splits)
  with assms show ?thesis by simp
next
  case True
  then obtain s1 s2 where sc: "team1Score g = Some s1" "team2Score g = Some s2"
    by (auto simp: scored_def)
  define k1 where "k1 = teamKey (team1 g)"
  define k2 where "k2 = teamKey (team2 g)"
  define m2 where "m2 = initTeam k2 (team2 g) (initTeam k1 (team1 g) m)"
  have m2: "\<And>q t. map_of m2 q = Some t \<Longrightarrow> teamInv q t"
    using assms(1)
    by (auto simp: m2_def initTeam_def update_conv' teamInv_def newTeamStats_def split: if_splits)
  define m5 where "m5 =
     (let m3 = AList.map_entry k1 (addScores s1 s2) m2;
          m4 = AList.map_entry k2 (addScores s2 s1) m3
      in if s1 > s2 then AList.map_entry k2 addLoss (AList.map_entry k1 addWin m4)
         else if s2 > s1 then AList.map_entry k1 addLoss (AList.map_entry k2 addWin m4)
         else m4)"
  have m5: "\<And>q t. map_of m5 q = Some t \<Longrightarrow> teamName t = q \<and> (q = k1 \<or> q = k2 \<or> teamInv q t)"
    using m2
    by (auto simp: m5_def Let_def map_of_map_entry teamInv_def addScores_def addWin_def addLoss_def
        split: if_splits option.splits)
  have res: "addTeamGame g m = AList.map_entry k2 setDifferential (AList.map_entry k1 setDifferential m5)"
    by (simp add: addTeamGame_def sc Let_def m5_def m2_def k1_def k2_def)
  from assms(2) m5 show ?thesis
    unfolding res
    by (auto simp: map_of_map_entry teamInv_def setDifferential_def split: if_splits option.splits)
qed

lemma teamMapOf_inv: "map_of (teamMapOf rounds) q = Some t \<Longrightarrow> teamInv q t"
proof -
  have "\<And>m. (\<And>q t. map_of m q = Some t \<Longrightarrow> teamInv q t) \<Longrightarrow>
      map_of (fold addTeamGame gs m) q = Some t \<Longrightarrow> teamInv q t" for gs q t
  proof (induction gs)
    case Nil
    then show ?case by simp
  next
    case (Cons g gs)
    show ?case
    proof (rule Cons.IH[of "addTeamGame g m"])
      show "\<And>q t. map_of (addTeamGame g m) q = Some t \<Longrightarrow> teamInv q t"
        using addTeamGame_inv[of m g] Cons.prems(1) by blast
      show "map_of (fold addTeamGame gs (addTeamGame g m)) q = Some t"
        using Cons.prems(2) by simp
    qed
  qed
  from this[of "[]" "allGames rounds" q t] show "map_of (teamMapOf rounds) q = Some t \<Longrightarrow> teamInv q t"
    by (simp add: teamMapOf_games)
qed

lemma teamMapOf_entry: "(k, t) \<in> set (teamMapOf rounds) \<Longrightarrow> teamInv k t"
  using teamMapOf_inv teamMapOf_distinct by (metis map_of_eq_Some_iff)

lemma calculateTeamStats_sort_key:
  "calculateTeamStats rounds
     = sort_key (\<lambda>t. (- team_wins t, - pointDifferential t)) (map snd (teamMapOf rounds))"
  unfolding calculateTeamStats_def
  by (rule sortArray_sort_key) (auto simp: byWinsThenDifferential_def less_eq_prod_def)

lemma teamMapOf_names: "map teamName (map snd (teamMapOf rounds)) = map fst (teamMapOf rounds)"
proof -
  have "\<And>e. e \<in> set (teamMapOf rounds) \<Longrightarrow> teamName (snd e) = fst e"
    using teamMapOf_entry[of _ _ rounds] by (auto simp: teamInv_def)
  then show ?thesis by (simp add: comp_def)
qed

text \<open>
  Claim C7. The array returned by \<open>calculateTeamStats\<close> holds the records of the team map,
  ordered by wins descending, then by point differential descending; records equal on
  both keys keep the order of the team map, which is the encounter order of the teams;
  and every record's \<open>pointDifferential\<close> is its \<open>pointsScored\<close> minus its \<open>pointsConceded\<close>.
\<close>

theorem calculateTeamStats_ranking:
  "sorted_wrt ranksBefore (calculateTeamStats rounds)
   \<and> mset (calculateTeamStats rounds) = mset (map snd (teamMapOf rounds))
   \<and> (\<forall>w d. filter (\<lambda>t. team_wins t = w \<and> pointDifferential t = d) (calculateTeamStats rounds)
            = filter (\<lambda>t. team_wins t = w \<and> pointDifferential t = d) (map snd (teamMapOf rounds)))
   \<and> map teamName (map snd (teamMapOf rounds)) = teamEncounterOrder rounds
   \<and> list_all (\<lambda>t. pointDifferential t = pointsScored t - pointsConceded t) (calculateTeamStats rounds)"
proof -
  let ?key = "\<lambda>t. (- team_wins t, - pointDifferential t)"
  have "sorted (map ?key (calculateTeamStats rounds))"
    unfolding calculateTeamStats_sort_key by (rule sorted_sort_key)
  then have "sorted_wrt (\<lambda>a b. ?key a \<le> ?key b) (calculateTeamStats rounds)"
    by (simp add: sorted_map)
  then have ordered: "sorted_wrt ranksBefore (calculateTeamStats rounds)"
    by (rule sorted_wrt_mono_rel[rotated]) (auto simp: ranksBefore_def less_eq_prod_def)
  have perm: "mset (calculateTeamStats rounds) = mset (map snd (teamMapOf rounds))"
    by (simp add: calculateTeamStats_sort_key)
  have stable: "\<forall>w d. filter (\<lambda>t. team_wins t = w \<and> pointDifferential t = d) (calculateTeamStats rounds)
            = filter (\<lambda>t. team_wins t = w \<and> pointDifferential t = d) (map snd (teamMapOf rounds))"
  proof (intro allI)
    fix w d
    have "filter (\<lambda>t. ?key t = (- w, - d)) (calculateTeamStats rounds)
        = filter (\<lambda>t. ?key t = (- w, - d)) (map snd (teamMapOf rounds))"
      unfolding calculateTeamStats_sort_key by (rule sort_key_stable)
    then show "filter (\<lambda>t. team_wins t = w \<and> pointDifferential t = d) (calculateTeamStats rounds)
            = filter (\<lambda>t. team_wins t = w \<and> pointDifferential t = d) (map snd (teamMapOf rounds))"
      by simp
  qed
  have order: "map teamName (map snd (teamMapOf rounds)) = teamEncounterOrder rounds"
    by (simp only: teamMapOf_names teamMapOf_keys)
  have "\<And>t. t \<in> set (calculateTeamStats rounds) \<Longrightarrow> pointDifferential t = pointsScored t - pointsConceded t"
  proof -
    fix t assume "t \<in> set (calculateTeamStats rounds)"
    then have "t \<in> set (map snd (teamMapOf rounds))" using perm by (metis mset_eq_setD)
    then obtain k where "(k, t) \<in> set (teamMapOf rounds)" by auto
    then show "pointDifferential t = pointsScored t - pointsConceded t"
      using teamMapOf_entry by (auto simp: teamInv_def)
  qed
  then have diff: "list_all (\<lambda>t. pointDifferential t = pointsScored t - pointsConceded t) (calculateTeamStats rounds)"
    by (simp add: list_all_iff)
  from ordered perm stable order diff show ?thesis by blast
qed

lemma teamRounds_names:
  "map (\<lambda>t. (teamName t, team_wins t, pointDifferential t)) (calculateTeamStats teamRounds)
     = [(''Alice & Bob'', 1, 4), (''Grace & Henry'', 1, 3), (''Eve & Frank'', 1, - 1),
        (''Charlie & David'', 0, - 6)]"
  by code_simp

lemma teamRounds_order:
  "teamEncounterOrder teamRounds = [''Alice & Bob'', ''Charlie & David'', ''Eve & Frank'', ''Grace & Henry'']"
  by code_simp

theorem calculateTeamStats_ranking_witness:
  "map (\<lambda>t. (teamName t, team_wins t, pointDifferential t)) (calculateTeamStats teamRounds)
     = [(''Alice & Bob'', 1, 4), (''Grace & Henry'', 1, 3), (''Eve & Frank'', 1, - 1),
        (''Charlie & David'', 0, - 6)]
   \<and> sorted_wrt ranksBefore (calculateTeamStats teamRounds)
   \<and> map teamName (map snd (teamMapOf teamRounds))
       = [''Alice & Bob'', ''Charlie & David'', ''Eve & Frank'', ''Grace & Henry'']
   \<and> list_all (\<lambda>t. pointDifferential t = pointsScored t - pointsConceded t) (calculateTeamStats teamRounds)"
  using calculateTeamStats_ranking[of teamRounds] teamRounds_names teamRounds_order by simp

end
